theory Spec2Isabelle
  imports Complex_Main "HOL-Library.Sublist"
begin

section \<open>Data model (src/db/schema.sql)\<close>

text \<open>
  The relational state is a record of tables, each table a list of rows in storage
  order.  Only the columns that the pipeline reads or writes are kept.  UUID and TEXT
  columns are strings, TIMESTAMPTZ columns are microseconds since the epoch, and the
  surrogate key of a blocker row (\<^verbatim>\<open>gen_random_uuid()\<close>) is a natural number
  chosen fresh on insertion.
\<close>

type_synonym uuid = string
type_synonym timestamp = int

datatype severity = LOW | MEDIUM | HIGH

datatype blocker_type = FILE_CONFLICT_RISK | DEPENDENCY_BLOCK | INACTIVITY | ALIGNMENT_DRIFT

datatype feature_status = ACTIVE | BLOCKED | COMPLETE

datatype pr_status = PR_open | PR_merged | PR_closed

record workspace =
  ws_id :: uuid
  ws_github_repo_id :: int
  ws_health_score :: int
  ws_activity_window_hours :: int

record user_row =
  u_workspace_id :: uuid
  u_github_username :: string

record feature =
  f_id :: uuid
  f_workspace_id :: uuid
  f_name :: string
  f_status :: feature_status
  f_completion_percentage :: int

record feature_dependency =
  fd_feature_id :: uuid
  fd_depends_on_feature_id :: uuid

record file_activity_row =
  fa_workspace_id :: uuid
  fa_branch_name :: string
  fa_file_path :: string
  fa_last_commit_hash :: string
  fa_updated_at :: timestamp

record blocker =
  b_id :: nat
  b_workspace_id :: uuid
  b_type :: blocker_type
  b_reference_id :: string
  b_description :: string
  b_severity :: severity
  b_resolved :: bool
  b_created_at :: timestamp

record pull_request =
  pr_id :: uuid
  pr_workspace_id :: uuid
  pr_number :: int
  pr_source_branch :: string
  pr_state :: pr_status

record pr_file =
  pf_pr_id :: uuid
  pf_file_path :: string

record webhook_delivery =
  wd_delivery_id :: string
  wd_repo_id :: int
  wd_branch_name :: string
  wd_commit_hash :: string
  wd_duration_ms :: "int option"
  wd_processed_at :: timestamp

record db =
  workspaces :: "workspace list"
  users :: "user_row list"
  features :: "feature list"
  feature_dependencies :: "feature_dependency list"
  file_activity :: "file_activity_row list"
  blockers :: "blocker list"
  pull_requests :: "pull_request list"
  pr_files :: "pr_file list"
  webhook_deliveries :: "webhook_delivery list"

text \<open>A failed statement raises; the caller's \<^verbatim>\<open>catch\<close> decides what persists.\<close>

datatype error = ForeignKeyViolation | UniqueViolation | CheckViolation | NumericValueOutOfRange

text \<open>Messages published on the event bus (src/websocket/wsManager.js), each paired
  with the workspace it is broadcast to.\<close>

datatype risk_level = HEALTHY | WARNING | CRITICAL

datatype event =
    CONFLICT_WARNING string "string list" severity
  | BLOCKER_CREATED uuid string "string list"
  | HEALTH_UPDATE int risk_level

type_synonym broadcast = "uuid \<times> event"

section \<open>Severity classifier (severityClassifier.js)\<close>

record signals =
  branchCount :: int
  branches :: "string list"
  touchesMain :: bool
  prCount :: int
  prNumbers :: "int list"

definition classifySeverity :: "signals \<Rightarrow> severity" where
  "classifySeverity s =
     (if prCount s \<ge> 2 then HIGH
      else if touchesMain s then HIGH
      else if branchCount s \<ge> 3 then HIGH
      else if branchCount s \<ge> 2 then MEDIUM
      else LOW)"

section \<open>Text helpers\<close>

text \<open>Decimal rendering of a number inside a template string.\<close>

fun digits_of_nat :: "nat \<Rightarrow> string" where
  "digits_of_nat n =
     (if n < 10 then [''0123456789'' ! n]
      else digits_of_nat (n div 10) @ [''0123456789'' ! (n mod 10)])"

definition show_int :: "int \<Rightarrow> string" where
  "show_int i = (if i < 0 then CHR ''-'' # digits_of_nat (nat (- i)) else digits_of_nat (nat i))"

text \<open>\<^verbatim>\<open>Array.prototype.join\<close>.\<close>

fun join :: "string \<Rightarrow> string list \<Rightarrow> string" where
  "join sep [] = []"
| "join sep [x] = x"
| "join sep (x # y # ys) = x @ sep @ join sep (y # ys)"

section \<open>Blocker store (blockerService.js)\<close>

definition trunk_branches :: "string list" where
  "trunk_branches = [''main'', ''master'']"

text \<open>\<^verbatim>\<open>($2 || ' hours')::INTERVAL\<close> in microseconds.\<close>

definition hours_interval :: "int \<Rightarrow> int" where
  "hours_interval h = h * 3600000000"

definition fresh_blocker_id :: "blocker list \<Rightarrow> nat" where
  "fresh_blocker_id bs = Suc (fold max (map b_id bs) 0)"

definition active_key :: "uuid \<Rightarrow> blocker_type \<Rightarrow> string \<Rightarrow> blocker \<Rightarrow> bool" where
  "active_key w t r b =
     (b_workspace_id b = w \<and> b_type b = t \<and> b_reference_id b = r \<and> \<not> b_resolved b)"

text \<open>
  \<^verbatim>\<open>INSERT INTO blockers\<close> of an unresolved row: the foreign key on
  \<^verbatim>\<open>workspace_id\<close> and the partial unique index
  \<^verbatim>\<open>idx_blockers_unique_active\<close> are checked by the storage layer.
\<close>

definition insert_blocker ::
  "db \<Rightarrow> timestamp \<Rightarrow> uuid \<Rightarrow> blocker_type \<Rightarrow> string \<Rightarrow> string \<Rightarrow> severity \<Rightarrow> error + db" where
  "insert_blocker d now w t r descr sev =
     (if w \<notin> set (map ws_id (workspaces d)) then Inl ForeignKeyViolation
      else if list_ex (active_key w t r) (blockers d) then Inl UniqueViolation
      else Inr (d\<lparr>blockers := blockers d @
             [\<lparr>b_id = fresh_blocker_id (blockers d), b_workspace_id = w, b_type = t,
               b_reference_id = r, b_description = descr, b_severity = sev,
               b_resolved = False, b_created_at = now\<rparr>]\<rparr>))"

definition upsertConflictBlocker ::
  "db \<Rightarrow> timestamp \<Rightarrow> uuid \<Rightarrow> string \<Rightarrow> severity \<Rightarrow> string \<Rightarrow> error + db" where
  "upsertConflictBlocker d now workspaceId filePath sev description =
     (case find (active_key workspaceId FILE_CONFLICT_RISK filePath) (blockers d) of
        Some current \<Rightarrow>
          (if b_severity current \<noteq> sev
           then Inr (d\<lparr>blockers :=
                  map (\<lambda>b. if b_id b = b_id current
                           then b\<lparr>b_severity := sev, b_description := description\<rparr>
                           else b) (blockers d)\<rparr>)
           else Inr d)
      | None \<Rightarrow>
          insert_blocker d now workspaceId FILE_CONFLICT_RISK filePath description sev)"

text \<open>The two halves of the sub-select of \<^verbatim>\<open>resolveStaleBlockers\<close>.\<close>

definition still_conflicting_branches :: "db \<Rightarrow> timestamp \<Rightarrow> uuid \<Rightarrow> int \<Rightarrow> string list" where
  "still_conflicting_branches d now w windowHours =
     (let rows = filter (\<lambda>fa. fa_workspace_id fa = w
                          \<and> fa_branch_name fa \<notin> set trunk_branches
                          \<and> fa_updated_at fa > now - hours_interval windowHours)
                   (file_activity d)
      in filter (\<lambda>p. length (remdups (map fa_branch_name
                                   (filter (\<lambda>fa. fa_file_path fa = p) rows))) > 1)
           (remdups (map fa_file_path rows)))"

definition open_pr_join :: "db \<Rightarrow> uuid \<Rightarrow> (pr_file \<times> pull_request) list" where
  "open_pr_join d w =
     [(pf, pr). pf \<leftarrow> pr_files d, pr \<leftarrow> pull_requests d,
                pr_id pr = pf_pr_id pf \<and> pr_workspace_id pr = w \<and> pr_state pr = PR_open]"

definition still_conflicting_prs :: "db \<Rightarrow> uuid \<Rightarrow> string list" where
  "still_conflicting_prs d w =
     (let rows = open_pr_join d w
      in filter (\<lambda>p. length (remdups (map (pr_id \<circ> snd)
                                   (filter (\<lambda>r. pf_file_path (fst r) = p) rows))) > 1)
           (remdups (map (pf_file_path \<circ> fst) rows)))"

definition resolveStaleBlockers :: "db \<Rightarrow> timestamp \<Rightarrow> uuid \<Rightarrow> int \<Rightarrow> db" where
  "resolveStaleBlockers d now workspaceId windowHours =
     d\<lparr>blockers :=
        map (\<lambda>b. if b_workspace_id b = workspaceId
                   \<and> b_type b = FILE_CONFLICT_RISK
                   \<and> \<not> b_resolved b
                   \<and> b_reference_id b \<notin>
                       set (still_conflicting_branches d now workspaceId windowHours)
                       \<union> set (still_conflicting_prs d workspaceId)
                 then b\<lparr>b_resolved := True\<rparr> else b)
          (blockers d)\<rparr>"

text \<open>The separator of the description parts is the UTF-8 encoding of
  \<^verbatim>\<open>" \<close>U+00B7\<^verbatim>\<open> "\<close>.\<close>

definition buildDescription :: "string \<Rightarrow> signals \<Rightarrow> string" where
  "buildDescription filePath s =
     (let parts =
            (if branchCount s > 1
             then [show_int (branchCount s) @ '' branches ('' @ join '', '' (branches s) @ '')'']
             else [])
          @ (if prCount s > 1
             then [show_int (prCount s) @ '' open PRs (#''
                     @ join '', #'' (map show_int (prNumbers s)) @ '')'']
             else [])
          @ (if touchesMain s then [''includes main''] else [])
      in ''Conflict risk on '' @ filePath @ '': ''
           @ join [CHR '' '', CHR 0xC2, CHR 0xB7, CHR '' ''] parts)"

section \<open>Conflict engine (conflictEngine.js)\<close>

record branch_overlap_row =
  bo_file_path :: string
  bo_branch_count :: int
  bo_branches :: "string list"
  bo_touches_main :: bool

record pr_overlap_row =
  po_file_path :: string
  po_pr_count :: int
  po_pr_numbers :: "int list"
  po_source_branches :: "string list"

text \<open>
  \<^verbatim>\<open>BRANCH_OVERLAP_QUERY\<close>: the WHERE clause filters the rows, GROUP BY collects
  them per file path, the aggregates are computed over each group, HAVING keeps the
  groups with more than one distinct branch.  SQL leaves the order of groups and of
  \<^verbatim>\<open>DISTINCT\<close> aggregates open; the model takes the order of \<^const>\<open>remdups\<close>.
\<close>

definition branch_overlap_query :: "db \<Rightarrow> timestamp \<Rightarrow> uuid \<Rightarrow> int \<Rightarrow> branch_overlap_row list" where
  "branch_overlap_query d now w windowHours =
     (let rows = filter (\<lambda>fa. fa_workspace_id fa = w
                          \<and> fa_branch_name fa \<notin> set trunk_branches
                          \<and> fa_updated_at fa > now - hours_interval windowHours)
                   (file_activity d)
      in filter (\<lambda>r. bo_branch_count r > 1)
           (map (\<lambda>p. let grp = filter (\<lambda>fa. fa_file_path fa = p) rows
                      in \<lparr>bo_file_path = p,
                          bo_branch_count = int (length (remdups (map fa_branch_name grp))),
                          bo_branches = remdups (map fa_branch_name grp),
                          bo_touches_main =
                            list_ex (\<lambda>fa. fa_branch_name fa \<in> set trunk_branches) grp\<rparr>)
              (remdups (map fa_file_path rows))))"

definition pr_overlap_query :: "db \<Rightarrow> uuid \<Rightarrow> pr_overlap_row list" where
  "pr_overlap_query d w =
     (let rows = open_pr_join d w
      in filter (\<lambda>r. po_pr_count r > 1)
           (map (\<lambda>p. let grp = filter (\<lambda>r. pf_file_path (fst r) = p) rows
                      in \<lparr>po_file_path = p,
                          po_pr_count = int (length (remdups (map (pr_id \<circ> snd) grp))),
                          po_pr_numbers = remdups (map (pr_number \<circ> snd) grp),
                          po_source_branches = remdups (map (pr_source_branch \<circ> snd) grp)\<rparr>)
              (remdups (map (pf_file_path \<circ> fst) rows))))"

text \<open>\<^verbatim>\<open>Map.prototype.set\<close> on an insertion-ordered map: an existing key keeps its
  place, a new key goes last.\<close>

fun map_set :: "'k \<Rightarrow> 'v \<Rightarrow> ('k \<times> 'v) list \<Rightarrow> ('k \<times> 'v) list" where
  "map_set k v [] = [(k, v)]"
| "map_set k v ((k', v') # kvs) =
     (if k' = k then (k, v) # kvs else (k', v') # map_set k v kvs)"

definition merge_branch_rows ::
  "branch_overlap_row list \<Rightarrow> (string \<times> signals) list \<Rightarrow> (string \<times> signals) list" where
  "merge_branch_rows rows m =
     foldl (\<lambda>m row. map_set (bo_file_path row)
                      \<lparr>branchCount = bo_branch_count row, branches = bo_branches row,
                       touchesMain = bo_touches_main row, prCount = 0, prNumbers = []\<rparr> m)
       m rows"

definition merge_pr_rows ::
  "pr_overlap_row list \<Rightarrow> (string \<times> signals) list \<Rightarrow> (string \<times> signals) list" where
  "merge_pr_rows rows m =
     foldl (\<lambda>m row.
              let existing = (case map_of m (po_file_path row) of
                                Some e \<Rightarrow> e
                              | None \<Rightarrow> \<lparr>branchCount = 0, branches = [], touchesMain = False,
                                         prCount = 0, prNumbers = []\<rparr>)
              in map_set (po_file_path row)
                   (existing\<lparr>prCount := po_pr_count row, prNumbers := po_pr_numbers row\<rparr>) m)
       m rows"

definition conflictMap :: "db \<Rightarrow> timestamp \<Rightarrow> uuid \<Rightarrow> int \<Rightarrow> (string \<times> signals) list" where
  "conflictMap d now w windowHours =
     merge_pr_rows (pr_overlap_query d w)
       (merge_branch_rows (branch_overlap_query d now w windowHours) [])"

fun upsert_all :: "db \<Rightarrow> timestamp \<Rightarrow> uuid \<Rightarrow> (string \<times> signals) list \<Rightarrow> error + db" where
  "upsert_all d now w [] = Inr d"
| "upsert_all d now w ((filePath, s) # rest) =
     (case upsertConflictBlocker d now w filePath (classifySeverity s)
             (buildDescription filePath s) of
        Inl e \<Rightarrow> Inl e
      | Inr d' \<Rightarrow> upsert_all d' now w rest)"

definition window_hours_of :: "db \<Rightarrow> uuid \<Rightarrow> int" where
  "window_hours_of d w =
     (case find (\<lambda>r. ws_id r = w) (workspaces d) of
        Some r \<Rightarrow> ws_activity_window_hours r
      | None \<Rightarrow> 72)"

datatype engine_outcome = Skipped | RolledBack error | Committed

text \<open>
  \<^verbatim>\<open>runConflictEngine\<close>: one transaction whose clock \<^verbatim>\<open>NOW()\<close> is \<open>now\<close>.
  The result is the outcome, the database afterwards and the broadcasts sent after
  the commit.  A raised error rolls the transaction back and sends nothing.
\<close>

definition runConflictEngine ::
  "db \<Rightarrow> timestamp \<Rightarrow> uuid \<Rightarrow> string list \<Rightarrow> string \<Rightarrow> engine_outcome \<times> db \<times> broadcast list" where
  "runConflictEngine d now workspaceId modifiedFiles triggerBranch =
     (if modifiedFiles = [] then (Skipped, d, [])
      else
        let windowHours = window_hours_of d workspaceId;
            cm = conflictMap d now workspaceId windowHours
        in case upsert_all d now workspaceId cm of
             Inl e \<Rightarrow> (RolledBack e, d, [])
           | Inr d1 \<Rightarrow>
               (Committed,
                resolveStaleBlockers d1 now workspaceId windowHours,
                map (\<lambda>(filePath, s).
                       (workspaceId, CONFLICT_WARNING filePath (branches s) (classifySeverity s)))
                  cm))"

section \<open>Health engine (healthEngine.js)\<close>

text \<open>
  \<^verbatim>\<open>ILIKE\<close>: both sides are lower-cased (ASCII letters), then the pattern is
  matched as a \<^verbatim>\<open>LIKE\<close> pattern: \<^verbatim>\<open>%\<close> stands for any sequence of characters,
  \<^verbatim>\<open>_\<close> for any single character, and a backslash makes the next character literal.
  A pattern that ends in a lone backslash is rejected by the storage layer
  (\<^const>\<open>None\<close>); a pattern that ends in \<^verbatim>\<open>%\<close> never is.
\<close>

definition lower_char :: "char \<Rightarrow> char" where
  "lower_char c =
     (case map_of (zip ''ABCDEFGHIJKLMNOPQRSTUVWXYZ'' ''abcdefghijklmnopqrstuvwxyz'') c of
        Some l \<Rightarrow> l
      | None \<Rightarrow> c)"

datatype like_token = AnySequence | AnyChar | Literal char

fun parse_like :: "string \<Rightarrow> like_token list option" where
  "parse_like [] = Some []"
| "parse_like [c] =
     (if c = CHR 0x5C then None
      else if c = CHR ''%'' then Some [AnySequence]
      else if c = CHR ''_'' then Some [AnyChar]
      else Some [Literal c])"
| "parse_like (c # e # p) =
     (if c = CHR 0x5C then map_option ((#) (Literal e)) (parse_like p)
      else if c = CHR ''%'' then map_option ((#) AnySequence) (parse_like (e # p))
      else if c = CHR ''_'' then map_option ((#) AnyChar) (parse_like (e # p))
      else map_option ((#) (Literal c)) (parse_like (e # p)))"

fun like_tokens_match :: "like_token list \<Rightarrow> string \<Rightarrow> bool" where
  "like_tokens_match [] s = (s = [])"
| "like_tokens_match (AnySequence # ts) [] = like_tokens_match ts []"
| "like_tokens_match (AnySequence # ts) (x # s) =
     (like_tokens_match ts (x # s) \<or> like_tokens_match (AnySequence # ts) s)"
| "like_tokens_match (AnyChar # ts) [] = False"
| "like_tokens_match (AnyChar # ts) (x # s) = like_tokens_match ts s"
| "like_tokens_match (Literal c # ts) [] = False"
| "like_tokens_match (Literal c # ts) (x # s) = (x = c \<and> like_tokens_match ts s)"

definition ilike :: "string \<Rightarrow> string \<Rightarrow> bool" where
  "ilike txt pattern =
     (case parse_like (map lower_char pattern) of
        None \<Rightarrow> False
      | Some ts \<Rightarrow> like_tokens_match ts (map lower_char txt))"

text \<open>\<^verbatim>\<open>Math.round\<close>: the nearest integer, a tie going up.  The double arithmetic of
  the source is taken exactly, over the rationals.\<close>

definition js_round :: "rat \<Rightarrow> int" where
  "js_round x = \<lfloor>x + 1 / 2\<rfloor>"

definition getFeatureCompletionAvg :: "db \<Rightarrow> uuid \<Rightarrow> rat" where
  "getFeatureCompletionAvg d w =
     (let ps = map f_completion_percentage (filter (\<lambda>f. f_workspace_id f = w) (features d))
      in if ps = [] then 0 else of_int (sum_list ps) / of_int (int (length ps)))"

record blocker_counts =
  total :: int
  conflict :: int

definition getBlockerCounts :: "db \<Rightarrow> uuid \<Rightarrow> blocker_counts" where
  "getBlockerCounts d w =
     (let rows = filter (\<lambda>b. b_workspace_id b = w \<and> \<not> b_resolved b) (blockers d)
      in \<lparr>total = int (length rows),
          conflict = int (length (filter (\<lambda>b. b_type b = FILE_CONFLICT_RISK) rows))\<rparr>)"

text \<open>\<^verbatim>\<open>INTERVAL '7 days'\<close> in microseconds.\<close>

definition seven_days :: int where
  "seven_days = 7 * 24 * 3600000000"

definition getInactiveMemberCount :: "db \<Rightarrow> timestamp \<Rightarrow> uuid \<Rightarrow> int" where
  "getInactiveMemberCount d now w =
     int (length (filter
       (\<lambda>u. u_workspace_id u = w
             \<and> \<not> list_ex (\<lambda>fa. fa_workspace_id fa = w
                              \<and> fa_updated_at fa \<ge> now - seven_days
                              \<and> ilike (fa_branch_name fa) (''%'' @ u_github_username u @ ''%''))
                   (file_activity d))
       (users d)))"

definition health_raw :: "rat \<Rightarrow> blocker_counts \<Rightarrow> int \<Rightarrow> rat" where
  "health_raw featureAvg blockerCounts inactiveCount =
     featureAvg * (4 / 10)
       - of_int (total blockerCounts * 5)
       - of_int (conflict blockerCounts * 3)
       - of_int (inactiveCount * 5)"

definition health_score_of :: "rat \<Rightarrow> int" where
  "health_score_of raw = min 100 (max 0 (js_round raw))"

definition risk_level_of :: "int \<Rightarrow> risk_level" where
  "risk_level_of score =
     (if score \<ge> 80 then HEALTHY else if score \<ge> 50 then WARNING else CRITICAL)"

definition recalculate :: "db \<Rightarrow> timestamp \<Rightarrow> uuid \<Rightarrow> db \<times> broadcast list" where
  "recalculate d now workspaceId =
     (let featureAvg = getFeatureCompletionAvg d workspaceId;
          blockerCounts = getBlockerCounts d workspaceId;
          inactiveCount = getInactiveMemberCount d now workspaceId;
          raw = health_raw featureAvg blockerCounts inactiveCount;
          score = health_score_of raw;
          riskLevel = risk_level_of score
      in (d\<lparr>workspaces :=
              map (\<lambda>r. if ws_id r = workspaceId then r\<lparr>ws_health_score := score\<rparr> else r)
                (workspaces d)\<rparr>,
          [(workspaceId, HEALTH_UPDATE score riskLevel)]))"

section \<open>Feature engine (featureEngine.js)\<close>

definition incomplete_dependencies :: "db \<Rightarrow> uuid \<Rightarrow> (feature_dependency \<times> feature) list" where
  "incomplete_dependencies d fid =
     [(fd, f2). fd \<leftarrow> feature_dependencies d, f2 \<leftarrow> features d,
                f_id f2 = fd_depends_on_feature_id fd \<and> fd_feature_id fd = fid
                \<and> f_status f2 \<noteq> COMPLETE]"

definition set_feature_status :: "db \<Rightarrow> uuid \<Rightarrow> feature_status \<Rightarrow> db" where
  "set_feature_status d fid st =
     d\<lparr>features := map (\<lambda>f. if f_id f = fid then f\<lparr>f_status := st\<rparr> else f) (features d)\<rparr>"

text \<open>\<^verbatim>\<open>INSERT ... ON CONFLICT (workspace_id, type, reference_id) WHERE resolved = false
  DO NOTHING\<close>.\<close>

definition insert_dependency_block :: "db \<Rightarrow> timestamp \<Rightarrow> uuid \<Rightarrow> uuid \<Rightarrow> string \<Rightarrow> error + db" where
  "insert_dependency_block d now w fid descr =
     (if list_ex (active_key w DEPENDENCY_BLOCK fid) (blockers d) then Inr d
      else insert_blocker d now w DEPENDENCY_BLOCK fid descr HIGH)"

definition resolve_dependency_block :: "db \<Rightarrow> uuid \<Rightarrow> uuid \<Rightarrow> db" where
  "resolve_dependency_block d w fid =
     d\<lparr>blockers :=
        map (\<lambda>b. if b_workspace_id b = w \<and> b_type b = DEPENDENCY_BLOCK \<and> b_reference_id b = fid
                 then b\<lparr>b_resolved := True\<rparr> else b)
          (blockers d)\<rparr>"

text \<open>\<^verbatim>\<open>UPDATE features SET completion_percentage\<close>, under the column's CHECK.\<close>

definition set_completion_percentage :: "db \<Rightarrow> uuid \<Rightarrow> int \<Rightarrow> error + db" where
  "set_completion_percentage d fid pct =
     (if list_ex (\<lambda>f. f_id f = fid) (features d) \<and> (pct < 0 \<or> 100 < pct)
      then Inl CheckViolation
      else Inr (d\<lparr>features :=
                  map (\<lambda>f. if f_id f = fid then f\<lparr>f_completion_percentage := pct\<rparr> else f)
                    (features d)\<rparr>))"

definition dependency_step ::
  "db \<Rightarrow> timestamp \<Rightarrow> uuid \<Rightarrow> feature \<Rightarrow> error option \<times> db \<times> broadcast list" where
  "dependency_step d now workspaceId feature =
     (let depRows = incomplete_dependencies d (f_id feature)
      in if depRows \<noteq> [] then
           (let d1 = set_feature_status d (f_id feature) BLOCKED;
                blockingNames = join '', '' (map (f_name \<circ> snd) depRows)
            in case insert_dependency_block d1 now workspaceId (f_id feature)
                      (''Feature '' @ [CHR 0x22] @ f_name feature @ [CHR 0x22]
                         @ '' blocked by: '' @ blockingNames) of
                 Inl e \<Rightarrow> (Some e, d1, [])
               | Inr d2 \<Rightarrow>
                   (None, d2,
                    [(workspaceId,
                      BLOCKER_CREATED (f_id feature) (f_name feature)
                        (map (f_name \<circ> snd) depRows))]))
         else if f_status feature = BLOCKED then
           (None,
            resolve_dependency_block (set_feature_status d (f_id feature) ACTIVE)
              workspaceId (f_id feature),
            [])
         else (None, d, []))"

definition process_feature ::
  "db \<Rightarrow> timestamp \<Rightarrow> uuid \<Rightarrow> feature \<Rightarrow> error option \<times> db \<times> broadcast list" where
  "process_feature d now workspaceId feature =
     (case dependency_step d now workspaceId feature of
        (Some e, d', evs) \<Rightarrow> (Some e, d', evs)
      | (None, d', evs) \<Rightarrow>
          (let newPct = min 95 ((if f_completion_percentage feature = 0 then 0
                                 else f_completion_percentage feature) + 5)
           in case set_completion_percentage d' (f_id feature) newPct of
                Inl e \<Rightarrow> (Some e, d', evs)
              | Inr d'' \<Rightarrow> (None, d'', evs)))"

fun feature_loop ::
  "db \<Rightarrow> timestamp \<Rightarrow> uuid \<Rightarrow> feature list \<Rightarrow> error option \<times> db \<times> broadcast list" where
  "feature_loop d now w [] = (None, d, [])"
| "feature_loop d now w (feature # rest) =
     (case process_feature d now w feature of
        (Some e, d', evs) \<Rightarrow> (Some e, d', evs)
      | (None, d', evs) \<Rightarrow>
          (case feature_loop d' now w rest of
             (r, d'', evs') \<Rightarrow> (r, d'', evs @ evs')))"

datatype feature_outcome = NotRun | Failed error | Done

text \<open>
  \<^verbatim>\<open>runFeatureEngine\<close>: the statements run on the pool, outside any transaction, so
  whatever was written before a raised error persists; the \<^verbatim>\<open>catch\<close> only logs, and
  the health recomputation is then not reached.
\<close>

definition runFeatureEngine ::
  "db \<Rightarrow> timestamp \<Rightarrow> uuid \<Rightarrow> string list \<Rightarrow> string \<Rightarrow> feature_outcome \<times> db \<times> broadcast list" where
  "runFeatureEngine d now workspaceId modifiedFiles commitHash =
     (if modifiedFiles = [] then (NotRun, d, [])
      else
        let featuresResult =
              filter (\<lambda>f. f_workspace_id f = workspaceId \<and> f_status f \<noteq> COMPLETE) (features d)
        in case feature_loop d now workspaceId featuresResult of
             (Some e, d', evs) \<Rightarrow> (Failed e, d', evs)
           | (None, d', evs) \<Rightarrow>
               (case recalculate d' now workspaceId of
                  (d'', evs') \<Rightarrow> (Done, d'', evs @ evs')))"

section \<open>Webhook ingestor (routes/webhook.js)\<close>

record commit =
  c_added :: "string list option"
  c_modified :: "string list option"
  c_removed :: "string list option"

record repository =
  repo_id :: "int option"
  repo_full_name :: "string option"

record push_payload =
  p_ref :: "string option"
  p_before :: "string option"
  p_after :: "string option"
  p_commits :: "commit list option"
  p_repository :: "repository option"
  p_head_commit :: "commit option"

record request =
  rq_event :: "string option"
  rq_delivery :: "string option"
  rq_signature :: "string option"
  rq_raw_body :: string
  rq_body :: push_payload

datatype response_body =
    ErrorBody string
  | Ignored string
  | Duplicate string
  | WorkspaceNotFound int
  | BranchDeleted string
  | Processing string

datatype response = Response nat response_body

text \<open>What \<^verbatim>\<open>setImmediate\<close> is handed: workspace, modified files, branch, commit.\<close>

type_synonym dispatch = "uuid \<times> string list \<times> string \<times> string"

definition ZERO_SHA :: string where
  "ZERO_SHA = replicate 40 (CHR ''0'')"

text \<open>
  \<^verbatim>\<open>verifySignature\<close>.  The HMAC-SHA256 hex digest is a library function and a
  parameter here; \<open>secret\<close> is \<^verbatim>\<open>process.env.GITHUB_WEBHOOK_SECRET\<close>.
\<close>

definition verifySignature ::
  "(string \<Rightarrow> string \<Rightarrow> string) \<Rightarrow> string option \<Rightarrow> request \<Rightarrow> bool" where
  "verifySignature hmac secret req =
     (case secret of
        None \<Rightarrow> True
      | Some sec \<Rightarrow>
          if sec = [] then True
          else (case rq_signature req of
                  None \<Rightarrow> False
                | Some sg \<Rightarrow>
                    if sg = [] then False
                    else (let expected = ''sha256='' @ hmac sec (rq_raw_body req)
                          in if length sg \<noteq> length expected then False
                             else sg = expected)))"

text \<open>\<^verbatim>\<open>String.prototype.replace\<close> with a string pattern: the first occurrence only.\<close>

fun replace_first :: "string \<Rightarrow> string \<Rightarrow> string \<Rightarrow> string" where
  "replace_first pat rep [] = (if pat = [] then rep else [])"
| "replace_first pat rep (c # cs) =
     (if prefix pat (c # cs) then rep @ drop (length pat) (c # cs)
      else c # replace_first pat rep cs)"

text \<open>Adding to a \<^verbatim>\<open>Set\<close>, which keeps insertion order.\<close>

fun set_add_all :: "'a list \<Rightarrow> 'a list \<Rightarrow> 'a list" where
  "set_add_all acc [] = acc"
| "set_add_all acc (x # xs) = set_add_all (if x \<in> set acc then acc else acc @ [x]) xs"

definition or_empty :: "'a list option \<Rightarrow> 'a list" where
  "or_empty x = (case x of None \<Rightarrow> [] | Some xs \<Rightarrow> xs)"

definition commit_files :: "commit \<Rightarrow> string list" where
  "commit_files c = or_empty (c_added c) @ or_empty (c_modified c) @ or_empty (c_removed c)"

text \<open>\<^verbatim>\<open>INSERT INTO webhook_deliveries ... ON CONFLICT (delivery_id) DO NOTHING
  RETURNING delivery_id\<close>: \<^const>\<open>None\<close> when no row was inserted.  The parameter for
  the BIGINT column must be in range.\<close>

definition insert_delivery ::
  "db \<Rightarrow> timestamp \<Rightarrow> string \<Rightarrow> int \<Rightarrow> string \<Rightarrow> string \<Rightarrow> error + db option" where
  "insert_delivery d now deliveryId repoId branch commitHash =
     (if repoId < - (2 ^ 63) \<or> 2 ^ 63 \<le> repoId then Inl NumericValueOutOfRange
      else if deliveryId \<in> set (map wd_delivery_id (webhook_deliveries d)) then Inr None
      else Inr (Some (d\<lparr>webhook_deliveries := webhook_deliveries d @
              [\<lparr>wd_delivery_id = deliveryId, wd_repo_id = repoId, wd_branch_name = branch,
                wd_commit_hash = commitHash, wd_duration_ms = None,
                wd_processed_at = now\<rparr>]\<rparr>)))"

definition upsert_file_activity ::
  "uuid \<Rightarrow> string \<Rightarrow> string \<Rightarrow> timestamp \<Rightarrow> file_activity_row list \<Rightarrow> string \<Rightarrow> file_activity_row list" where
  "upsert_file_activity w branch commitHash now rows filePath =
     (if list_ex (\<lambda>r. fa_workspace_id r = w \<and> fa_branch_name r = branch
                       \<and> fa_file_path r = filePath) rows
      then map (\<lambda>r. if fa_workspace_id r = w \<and> fa_branch_name r = branch
                        \<and> fa_file_path r = filePath
                     then r\<lparr>fa_last_commit_hash := commitHash, fa_updated_at := now\<rparr>
                     else r) rows
      else rows @ [\<lparr>fa_workspace_id = w, fa_branch_name = branch, fa_file_path = filePath,
                    fa_last_commit_hash = commitHash, fa_updated_at = now\<rparr>])"

text \<open>The body of the \<^verbatim>\<open>try\<close> block: one transaction.  An error rolls back and
  answers 500.\<close>

definition push_transaction ::
  "db \<Rightarrow> timestamp \<Rightarrow> int \<Rightarrow> string \<Rightarrow> string \<Rightarrow> string \<Rightarrow> int \<Rightarrow> bool \<Rightarrow> bool
     \<Rightarrow> commit list \<Rightarrow> commit option \<Rightarrow> response \<times> db \<times> dispatch option" where
  "push_transaction d now durationMs deliveryId branch commitHash repoId
       isDeletedBranch isForcePush commits head_commit =
     (case insert_delivery d now deliveryId repoId branch commitHash of
        Inl e \<Rightarrow> (Response 500 (ErrorBody ''Internal server error''), d, None)
      | Inr None \<Rightarrow> (Response 200 (Duplicate deliveryId), d, None)
      | Inr (Some d1) \<Rightarrow>
          (case find (\<lambda>r. ws_github_repo_id r = repoId) (workspaces d1) of
             None \<Rightarrow> (Response 200 (WorkspaceNotFound repoId), d1, None)
           | Some wsRow \<Rightarrow>
               (let workspaceId = ws_id wsRow
                in if isDeletedBranch then
                     (Response 200 (BranchDeleted branch),
                      d1\<lparr>file_activity :=
                           filter (\<lambda>r. \<not> (fa_workspace_id r = workspaceId
                                            \<and> fa_branch_name r = branch))
                             (file_activity d1)\<rparr>,
                      None)
                   else
                     (let modifiedFiles =
                            (if commits \<noteq> [] then set_add_all [] (concat (map commit_files commits))
                             else if isForcePush then
                               (case head_commit of
                                  Some hc \<Rightarrow> set_add_all [] (commit_files hc)
                                | None \<Rightarrow> [])
                             else []);
                          d2 = d1\<lparr>file_activity :=
                                    foldl (upsert_file_activity workspaceId branch commitHash now)
                                      (file_activity d1) modifiedFiles\<rparr>;
                          d3 = d2\<lparr>webhook_deliveries :=
                                    map (\<lambda>r. if wd_delivery_id r = deliveryId
                                             then r\<lparr>wd_duration_ms := Some durationMs\<rparr> else r)
                                      (webhook_deliveries d2)\<rparr>
                      in (Response 200 (Processing deliveryId), d3,
                          if workspaceId \<noteq> [] \<and> modifiedFiles \<noteq> []
                          then Some (workspaceId, modifiedFiles, branch, commitHash)
                          else None)))))"

text \<open>
  \<^verbatim>\<open>router.post('/github')\<close>, for a request that the rate limiter has let through.
  \<open>now\<close> is the transaction's clock and \<open>durationMs\<close> the elapsed time the handler
  measures.  The result is the response, the database afterwards and what is handed
  to the engines after the response.
\<close>

definition webhook_github ::
  "(string \<Rightarrow> string \<Rightarrow> string) \<Rightarrow> string option \<Rightarrow> db \<Rightarrow> timestamp \<Rightarrow> int \<Rightarrow> request
     \<Rightarrow> response \<times> db \<times> dispatch option" where
  "webhook_github hmac secret d now durationMs req =
     (case (rq_event req, rq_delivery req) of
        (Some eventType, Some deliveryId) \<Rightarrow>
          if eventType = [] \<or> deliveryId = [] then
            (Response 400 (ErrorBody ''Missing required headers''), d, None)
          else if eventType \<noteq> ''push'' then (Response 200 (Ignored eventType), d, None)
          else if \<not> verifySignature hmac secret req then
            (Response 401 (ErrorBody ''Invalid signature''), d, None)
          else
            (case (p_ref (rq_body req), p_after (rq_body req), p_repository (rq_body req)) of
               (Some ref, Some after, Some repo) \<Rightarrow>
                 (case (repo_id repo, repo_full_name repo) of
                    (Some repoId, Some full_name) \<Rightarrow>
                      if ref = [] \<or> after = [] \<or> repoId = 0 \<or> full_name = [] then
                        (Response 400 (ErrorBody ''Invalid payload structure''), d, None)
                      else
                        (let branch = replace_first ''refs/heads/'' [] ref;
                             commitHash = after;
                             isDeletedBranch = (after = ZERO_SHA);
                             isNewBranch = (p_before (rq_body req) = Some ZERO_SHA);
                             isEmpty = (or_empty (p_commits (rq_body req)) = []);
                             isForcePush = (\<not> isNewBranch \<and> \<not> isDeletedBranch \<and> isEmpty)
                         in push_transaction d now durationMs deliveryId branch commitHash
                              repoId isDeletedBranch isForcePush
                              (or_empty (p_commits (rq_body req)))
                              (p_head_commit (rq_body req)))
                  | _ \<Rightarrow> (Response 400 (ErrorBody ''Invalid payload structure''), d, None))
             | _ \<Rightarrow> (Response 400 (ErrorBody ''Invalid payload structure''), d, None))
      | _ \<Rightarrow> (Response 400 (ErrorBody ''Missing required headers''), d, None))"

section \<open>The health formula as specified\<close>

text \<open>The score as the specification words it: the weighted sum of the four
  aggregates, rounded half-up, clamped to the interval from 0 to 100.\<close>

definition spec_clamp :: "int \<Rightarrow> int \<Rightarrow> int \<Rightarrow> int" where
  "spec_clamp x lo hi = (if x < lo then lo else if hi < x then hi else x)"

definition spec_round :: "rat \<Rightarrow> int" where
  "spec_round x = (if x - of_int \<lfloor>x\<rfloor> < 1 / 2 then \<lfloor>x\<rfloor> else \<lfloor>x\<rfloor> + 1)"

definition featureCompletionAvg :: "db \<Rightarrow> uuid \<Rightarrow> rat" where
  "featureCompletionAvg d w =
     (if \<not> list_ex (\<lambda>f. f_workspace_id f = w) (features d) then 0
      else of_int (\<Sum>f \<leftarrow> filter (\<lambda>f. f_workspace_id f = w) (features d).
                      f_completion_percentage f)
             / of_nat (length (filter (\<lambda>f. f_workspace_id f = w) (features d))))"

definition activeBlockerTotal :: "db \<Rightarrow> uuid \<Rightarrow> int" where
  "activeBlockerTotal d w =
     int (length (filter (\<lambda>b. b_workspace_id b = w \<and> \<not> b_resolved b) (blockers d)))"

definition conflictBlockerCount :: "db \<Rightarrow> uuid \<Rightarrow> int" where
  "conflictBlockerCount d w =
     int (length (filter (\<lambda>b. b_workspace_id b = w \<and> \<not> b_resolved b
                              \<and> b_type b = FILE_CONFLICT_RISK) (blockers d)))"

definition spec_health_score :: "db \<Rightarrow> timestamp \<Rightarrow> uuid \<Rightarrow> int" where
  "spec_health_score d now w =
     spec_clamp
       (spec_round (4 / 10 * featureCompletionAvg d w
                    - 5 * of_int (activeBlockerTotal d w)
                    - 3 * of_int (conflictBlockerCount d w)
                    - 5 * of_int (getInactiveMemberCount d now w)))
       0 100"

text \<open>A workspace without features, with two members who have no file activity and
  four unresolved conflict blockers: the raw score is \<open>- 42\<close>.\<close>

definition health_example_db :: db where
  "health_example_db =
     \<lparr>workspaces = [\<lparr>ws_id = ''w1'', ws_github_repo_id = 7, ws_health_score = 100,
                      ws_activity_window_hours = 72\<rparr>],
      users = [\<lparr>u_workspace_id = ''w1'', u_github_username = ''ann''\<rparr>,
               \<lparr>u_workspace_id = ''w1'', u_github_username = ''bob''\<rparr>],
      features = [],
      feature_dependencies = [],
      file_activity = [],
      blockers = map (\<lambda>(i, p). \<lparr>b_id = i, b_workspace_id = ''w1'', b_type = FILE_CONFLICT_RISK,
                                  b_reference_id = p, b_description = ''x'', b_severity = HIGH,
                                  b_resolved = False, b_created_at = 0\<rparr>)
                   [(1, ''a.js''), (2, ''b.js''), (3, ''c.js''), (4, ''d.js'')],
      pull_requests = [],
      pr_files = [],
      webhook_deliveries = []\<rparr>"

section \<open>Example states\<close>

text \<open>
  Workspace \<open>w1\<close>: two feature branches and the trunk touched \<open>a.js\<close> within the
  window, two open pull requests list \<open>core.ts\<close>, and an unresolved conflict blocker
  is left over for \<open>x.md\<close>, next to a dependency blocker and a blocker of another
  workspace with the same reference.
\<close>

definition conflict_example_db :: db where
  "conflict_example_db =
     \<lparr>workspaces = [\<lparr>ws_id = ''w1'', ws_github_repo_id = 7, ws_health_score = 100,
                      ws_activity_window_hours = 72\<rparr>],
      users = [],
      features = [],
      feature_dependencies = [],
      file_activity =
        [\<lparr>fa_workspace_id = ''w1'', fa_branch_name = ''feat-1'', fa_file_path = ''a.js'',
          fa_last_commit_hash = ''c1'', fa_updated_at = 1000\<rparr>,
         \<lparr>fa_workspace_id = ''w1'', fa_branch_name = ''feat-2'', fa_file_path = ''a.js'',
          fa_last_commit_hash = ''c2'', fa_updated_at = 2000\<rparr>,
         \<lparr>fa_workspace_id = ''w1'', fa_branch_name = ''main'', fa_file_path = ''a.js'',
          fa_last_commit_hash = ''c3'', fa_updated_at = 3000\<rparr>],
      blockers =
        [\<lparr>b_id = 1, b_workspace_id = ''w1'', b_type = FILE_CONFLICT_RISK,
          b_reference_id = ''x.md'', b_description = ''old'', b_severity = MEDIUM,
          b_resolved = False, b_created_at = 0\<rparr>,
         \<lparr>b_id = 2, b_workspace_id = ''w1'', b_type = DEPENDENCY_BLOCK,
          b_reference_id = ''x.md'', b_description = ''dep'', b_severity = HIGH,
          b_resolved = False, b_created_at = 0\<rparr>,
         \<lparr>b_id = 3, b_workspace_id = ''w2'', b_type = FILE_CONFLICT_RISK,
          b_reference_id = ''x.md'', b_description = ''other'', b_severity = LOW,
          b_resolved = False, b_created_at = 0\<rparr>],
      pull_requests =
        [\<lparr>pr_id = ''p1'', pr_workspace_id = ''w1'', pr_number = 10,
          pr_source_branch = ''feat-1'', pr_state = PR_open\<rparr>,
         \<lparr>pr_id = ''p2'', pr_workspace_id = ''w1'', pr_number = 11,
          pr_source_branch = ''feat-2'', pr_state = PR_open\<rparr>],
      pr_files =
        [\<lparr>pf_pr_id = ''p1'', pf_file_path = ''core.ts''\<rparr>,
         \<lparr>pf_pr_id = ''p2'', pf_file_path = ''core.ts''\<rparr>],
      webhook_deliveries = []\<rparr>"


section \<open>The conflict set as specified\<close>

text \<open>
  The current conflict set of a workspace: the file paths touched on at least two
  distinct non-trunk branches within the activity window, together with the file
  paths listed by at least two open pull requests of the workspace.
\<close>

definition branch_conflict_paths :: "db \<Rightarrow> timestamp \<Rightarrow> uuid \<Rightarrow> int \<Rightarrow> string set" where
  "branch_conflict_paths d now w windowHours =
     {p. 2 \<le> card {fa_branch_name fa | fa.
                     fa \<in> set (file_activity d) \<and> fa_workspace_id fa = w \<and> fa_file_path fa = p
                     \<and> fa_branch_name fa \<noteq> ''main'' \<and> fa_branch_name fa \<noteq> ''master''
                     \<and> now - hours_interval windowHours < fa_updated_at fa}}"

definition pr_conflict_paths :: "db \<Rightarrow> uuid \<Rightarrow> string set" where
  "pr_conflict_paths d w =
     {p. 2 \<le> card {pr_id pr | pr.
                     pr \<in> set (pull_requests d) \<and> pr_workspace_id pr = w \<and> pr_state pr = PR_open
                     \<and> (\<exists>pf \<in> set (pr_files d). pf_pr_id pf = pr_id pr \<and> pf_file_path pf = p)}}"

definition conflict_set :: "db \<Rightarrow> timestamp \<Rightarrow> uuid \<Rightarrow> int \<Rightarrow> string set" where
  "conflict_set d now w windowHours =
     branch_conflict_paths d now w windowHours \<union> pr_conflict_paths d w"

text \<open>One run of the conflict engine on the example state.\<close>

definition conflict_example_run :: "engine_outcome \<times> db \<times> broadcast list" where
  "conflict_example_run = runConflictEngine conflict_example_db 5000 ''w1'' [''a.js''] ''feat-2''"


section \<open>Blocker uniqueness as specified\<close>

text \<open>
  Invariant I1: no two unresolved blockers share workspace, type and reference.
  The keys of the unresolved rows, in storage order, are pairwise distinct.
\<close>

definition unresolved_keys :: "blocker list \<Rightarrow> (uuid \<times> blocker_type \<times> string) list" where
  "unresolved_keys bs =
     map (\<lambda>b. (b_workspace_id b, b_type b, b_reference_id b)) (filter (\<lambda>b. \<not> b_resolved b) bs)"

definition blocker_uniqueness :: "blocker list \<Rightarrow> bool" where
  "blocker_uniqueness bs = distinct (unresolved_keys bs)"

text \<open>
  Workspace \<open>w1\<close> with four features: \<open>f2\<close> is BLOCKED with an unresolved
  dependency blocker although its only upstream feature \<open>f1\<close> is COMPLETE, and
  \<open>f3\<close> is ACTIVE although its upstream feature \<open>f4\<close> is not COMPLETE.
\<close>

definition feature_example_db :: db where
  "feature_example_db =
     \<lparr>workspaces = [\<lparr>ws_id = ''w1'', ws_github_repo_id = 7, ws_health_score = 100,
                      ws_activity_window_hours = 72\<rparr>],
      users = [],
      features =
        [\<lparr>f_id = ''f1'', f_workspace_id = ''w1'', f_name = ''login'', f_status = COMPLETE,
          f_completion_percentage = 100\<rparr>,
         \<lparr>f_id = ''f2'', f_workspace_id = ''w1'', f_name = ''profile'', f_status = BLOCKED,
          f_completion_percentage = 40\<rparr>,
         \<lparr>f_id = ''f3'', f_workspace_id = ''w1'', f_name = ''search'', f_status = ACTIVE,
          f_completion_percentage = 0\<rparr>,
         \<lparr>f_id = ''f4'', f_workspace_id = ''w1'', f_name = ''index'', f_status = ACTIVE,
          f_completion_percentage = 95\<rparr>],
      feature_dependencies =
        [\<lparr>fd_feature_id = ''f2'', fd_depends_on_feature_id = ''f1''\<rparr>,
         \<lparr>fd_feature_id = ''f3'', fd_depends_on_feature_id = ''f4''\<rparr>],
      file_activity = [],
      blockers =
        [\<lparr>b_id = 1, b_workspace_id = ''w1'', b_type = DEPENDENCY_BLOCK,
          b_reference_id = ''f2'', b_description = ''blocked'', b_severity = HIGH,
          b_resolved = False, b_created_at = 0\<rparr>],
      pull_requests = [],
      pr_files = [],
      webhook_deliveries = []\<rparr>"

definition feature_example_run :: "feature_outcome \<times> db \<times> broadcast list" where
  "feature_example_run = runFeatureEngine feature_example_db 5000 ''w1'' [''a.js''] ''c9''"


section \<open>Notions for repeated conflict-engine runs\<close>

text \<open>A conflict-map entry is settled when the first unresolved file-conflict blocker
  of its file carries the entry's severity: the upsert then writes nothing.\<close>

definition settled :: "blocker list \<Rightarrow> uuid \<Rightarrow> string \<times> signals \<Rightarrow> bool" where
  "settled bs w e =
     (case find (active_key w FILE_CONFLICT_RISK (fst e)) bs of
        None \<Rightarrow> False
      | Some b \<Rightarrow> b_severity b = classifySeverity (snd e))"

text \<open>Two clock values see the same activity window when no file-activity row of the
  workspace is inside the window at one of them and outside at the other.\<close>

definition same_window :: "db \<Rightarrow> uuid \<Rightarrow> int \<Rightarrow> timestamp \<Rightarrow> timestamp \<Rightarrow> bool" where
  "same_window d w windowHours now now' =
     list_all (\<lambda>fa. (fa_updated_at fa > now - hours_interval windowHours)
                     = (fa_updated_at fa > now' - hours_interval windowHours))
       (filter (\<lambda>fa. fa_workspace_id fa = w) (file_activity d))"



section \<open>Severity classification\<close>

text \<open>
  Claim C8.  The classifier is a function of its three signals alone and follows the
  precedence, first match wins: two or more open pull requests give HIGH; else a
  trunk touch gives HIGH; else three or more branches give HIGH; else exactly two
  branches give MEDIUM; else LOW.  The four boundary inputs of the specification
  are classified HIGH, HIGH, MEDIUM and LOW.
\<close>

theorem classifySeverity_precedence:
  "classifySeverity s =
     (if prCount s \<ge> 2 then HIGH
      else if touchesMain s then HIGH
      else if branchCount s \<ge> 3 then HIGH
      else if branchCount s = 2 then MEDIUM
      else LOW)
   \<and> classifySeverity \<lparr>branchCount = 1, branches = bs, touchesMain = False,
                        prCount = 2, prNumbers = ns\<rparr> = HIGH
   \<and> classifySeverity (s\<lparr>branchCount := 3\<rparr>) = HIGH
   \<and> classifySeverity \<lparr>branchCount = 2, branches = bs, touchesMain = False,
                        prCount = 0, prNumbers = ns\<rparr> = MEDIUM
   \<and> classifySeverity \<lparr>branchCount = 1, branches = bs, touchesMain = False,
                        prCount = 1, prNumbers = ns\<rparr> = LOW"
  by (simp add: classifySeverity_def)

section \<open>Health score\<close>

lemma js_round_spec: "js_round x = spec_round x"
proof -
  have a: "of_int \<lfloor>x\<rfloor> \<le> x" and b: "x < of_int \<lfloor>x\<rfloor> + 1"
    by linarith+
  show ?thesis
  proof (cases "x - of_int \<lfloor>x\<rfloor> < 1 / 2")
    case True
    then have "of_int \<lfloor>x\<rfloor> \<le> x + 1 / 2 \<and> x + 1 / 2 < of_int \<lfloor>x\<rfloor> + 1"
      using a b by linarith
    then have "\<lfloor>x + 1 / 2\<rfloor> = \<lfloor>x\<rfloor>"
      by (rule iffD2 [OF floor_eq_iff])
    then show ?thesis using True by (simp add: js_round_def spec_round_def)
  next
    case False
    then have "of_int (\<lfloor>x\<rfloor> + 1) \<le> x + 1 / 2 \<and> x + 1 / 2 < of_int (\<lfloor>x\<rfloor> + 1) + 1"
      using a b by simp
    then have "\<lfloor>x + 1 / 2\<rfloor> = \<lfloor>x\<rfloor> + 1"
      by (rule iffD2 [OF floor_eq_iff])
    then show ?thesis using False by (simp add: js_round_def spec_round_def)
  qed
qed

lemma health_score_of_spec: "health_score_of x = spec_clamp (spec_round x) 0 100"
  by (simp add: health_score_of_def spec_clamp_def js_round_spec)

lemma getFeatureCompletionAvg_spec: "getFeatureCompletionAvg d w = featureCompletionAvg d w"
  by (simp add: getFeatureCompletionAvg_def featureCompletionAvg_def Let_def list_ex_iff
        filter_empty_conv comp_def)

lemma getBlockerCounts_spec:
  "total (getBlockerCounts d w) = activeBlockerTotal d w"
  "conflict (getBlockerCounts d w) = conflictBlockerCount d w"
  by (simp_all add: getBlockerCounts_def activeBlockerTotal_def conflictBlockerCount_def Let_def)

lemma recalculate_score:
  "health_score_of (health_raw (getFeatureCompletionAvg d w) (getBlockerCounts d w)
      (getInactiveMemberCount d now w)) = spec_health_score d now w"
  by (simp add: health_score_of_spec spec_health_score_def health_raw_def
        getFeatureCompletionAvg_spec getBlockerCounts_spec algebra_simps)

text \<open>
  Claim C7.  After the health engine ran for workspace \<open>w\<close>, every row of that workspace
  carries the score of the specification's formula: the clamp to 0..100 of the
  half-up rounding of 0.4 times the mean completion, minus 5 per unresolved blocker,
  minus 3 per unresolved conflict blocker, minus 5 per inactive member; the mean is 0
  for a workspace without features; a raw value of \<open>- 42\<close> gives 0 and one of 118 gives
  100; and the one broadcast carries that score with the tier HEALTHY from 80,
  WARNING from 50 and CRITICAL below.
\<close>

theorem recalculate_health_score:
  "(\<forall>r \<in> set (workspaces (fst (recalculate d now w))).
       ws_id r = w \<longrightarrow> ws_health_score r = spec_health_score d now w)
   \<and> map ws_id (workspaces (fst (recalculate d now w))) = map ws_id (workspaces d)
   \<and> (\<not> list_ex (\<lambda>f. f_workspace_id f = w) (features d) \<longrightarrow> getFeatureCompletionAvg d w = 0)
   \<and> 0 \<le> spec_health_score d now w \<and> spec_health_score d now w \<le> 100
   \<and> (health_raw a c i = - 42 \<longrightarrow> health_score_of (health_raw a c i) = 0)
   \<and> (health_raw a c i = 118 \<longrightarrow> health_score_of (health_raw a c i) = 100)
   \<and> (\<exists>lvl. snd (recalculate d now w) = [(w, HEALTH_UPDATE (spec_health_score d now w) lvl)]
          \<and> (lvl = HEALTHY \<longleftrightarrow> spec_health_score d now w \<ge> 80)
          \<and> (lvl = WARNING \<longleftrightarrow> 50 \<le> spec_health_score d now w \<and> spec_health_score d now w < 80)
          \<and> (lvl = CRITICAL \<longleftrightarrow> spec_health_score d now w < 50))"
proof -
  have p1: "\<forall>r \<in> set (workspaces (fst (recalculate d now w))).
       ws_id r = w \<longrightarrow> ws_health_score r = spec_health_score d now w"
  proof (intro ballI impI)
    fix r
    assume r: "r \<in> set (workspaces (fst (recalculate d now w)))" and w: "ws_id r = w"
    from r obtain x where x: "x \<in> set (workspaces d)"
      and rx: "r = (if ws_id x = w then x\<lparr>ws_health_score := spec_health_score d now w\<rparr> else x)"
      by (auto simp: recalculate_def Let_def recalculate_score)
    show "ws_health_score r = spec_health_score d now w"
    proof (cases "ws_id x = w")
      case True
      with rx show ?thesis by simp
    next
      case False
      with rx w show ?thesis by simp
    qed
  qed
  have p2: "map ws_id (workspaces (fst (recalculate d now w))) = map ws_id (workspaces d)"
    by (simp add: recalculate_def Let_def comp_def)
  have p3: "\<not> list_ex (\<lambda>f. f_workspace_id f = w) (features d) \<longrightarrow> getFeatureCompletionAvg d w = 0"
    by (simp add: getFeatureCompletionAvg_spec featureCompletionAvg_def)
  have p4: "0 \<le> spec_health_score d now w \<and> spec_health_score d now w \<le> 100"
    by (simp add: spec_health_score_def spec_clamp_def)
  have p5: "health_raw a c i = - 42 \<longrightarrow> health_score_of (health_raw a c i) = 0"
    by (simp add: health_score_of_def js_round_def)
  have p6: "health_raw a c i = 118 \<longrightarrow> health_score_of (health_raw a c i) = 100"
    by (simp add: health_score_of_def js_round_def)
  have p7: "\<exists>lvl. snd (recalculate d now w) = [(w, HEALTH_UPDATE (spec_health_score d now w) lvl)]
          \<and> (lvl = HEALTHY \<longleftrightarrow> spec_health_score d now w \<ge> 80)
          \<and> (lvl = WARNING \<longleftrightarrow> 50 \<le> spec_health_score d now w \<and> spec_health_score d now w < 80)
          \<and> (lvl = CRITICAL \<longleftrightarrow> spec_health_score d now w < 50)"
    by (simp add: recalculate_def Let_def recalculate_score risk_level_of_def)
  from p1 p2 p3 p4 p5 p6 p7 show ?thesis by blast
qed

theorem recalculate_health_score_witness:
  "(\<exists>r \<in> set (workspaces (fst (recalculate health_example_db 1000 ''w1''))).
       ws_id r = ''w1'' \<and> ws_health_score r = 0)
   \<and> spec_health_score health_example_db 1000 ''w1'' = 0
   \<and> \<not> list_ex (\<lambda>f. f_workspace_id f = ''w1'') (features health_example_db)
   \<and> getFeatureCompletionAvg health_example_db ''w1'' = 0
   \<and> health_raw (getFeatureCompletionAvg health_example_db ''w1'')
        (getBlockerCounts health_example_db ''w1'')
        (getInactiveMemberCount health_example_db 1000 ''w1'') = - 42
   \<and> health_raw 295 \<lparr>total = 0, conflict = 0\<rparr> 0 = 118
   \<and> health_score_of (health_raw 295 \<lparr>total = 0, conflict = 0\<rparr> 0) = 100
   \<and> snd (recalculate health_example_db 1000 ''w1'') = [(''w1'', HEALTH_UPDATE 0 CRITICAL)]"
proof -
  note t = recalculate_health_score [of health_example_db 1000 "''w1''" 295
      "\<lparr>total = 0, conflict = 0\<rparr>" 0]
  have e1: "map ws_id (workspaces (fst (recalculate health_example_db 1000 ''w1''))) = [''w1'']"
    by code_simp
  have e2: "map ws_health_score (workspaces (fst (recalculate health_example_db 1000 ''w1''))) = [0]"
    by code_simp
  have e3: "\<not> list_ex (\<lambda>f. f_workspace_id f = ''w1'') (features health_example_db)"
    by code_simp
  have e4: "health_raw (getFeatureCompletionAvg health_example_db ''w1'')
        (getBlockerCounts health_example_db ''w1'')
        (getInactiveMemberCount health_example_db 1000 ''w1'') = - 42"
    by code_simp
  have e5: "health_raw 295 \<lparr>total = 0, conflict = 0\<rparr> 0 = 118"
    by code_simp
  have e6: "snd (recalculate health_example_db 1000 ''w1'') = [(''w1'', HEALTH_UPDATE 0 CRITICAL)]"
    by code_simp
  from e1 e2 obtain r where r: "workspaces (fst (recalculate health_example_db 1000 ''w1'')) = [r]"
    and r1: "ws_id r = ''w1''" and r2: "ws_health_score r = 0"
    by (cases "workspaces (fst (recalculate health_example_db 1000 ''w1''))") auto
  from t r r1 r2 have s: "spec_health_score health_example_db 1000 ''w1'' = 0"
    by simp
  from t e3 have a: "getFeatureCompletionAvg health_example_db ''w1'' = 0"
    by blast
  from t e5 have h: "health_score_of (health_raw 295 \<lparr>total = 0, conflict = 0\<rparr> 0) = 100"
    by blast
  from r r1 r2 s e3 a e4 e5 h e6 show ?thesis
    by simp
qed

section \<open>Trunk detection in the branch-overlap query\<close>

lemma map_set_values:
  "\<forall>(k, v) \<in> set m. P v \<Longrightarrow> P v0 \<Longrightarrow> \<forall>(k, v) \<in> set (map_set k0 v0 m). P v"
  by (induction m) (auto split: if_splits)

lemma branch_overlap_row_touches_main:
  "r \<in> set (branch_overlap_query d now w wh) \<Longrightarrow> \<not> bo_touches_main r"
  by (auto simp: branch_overlap_query_def Let_def list_ex_iff)

lemma merge_branch_rows_touchesMain:
  "\<forall>(k, v) \<in> set m. \<not> touchesMain v \<Longrightarrow> \<forall>r \<in> set rows. \<not> bo_touches_main r
     \<Longrightarrow> \<forall>(k, v) \<in> set (merge_branch_rows rows m). \<not> touchesMain v"
  unfolding merge_branch_rows_def
proof (induction rows arbitrary: m)
  case Nil
  then show ?case by simp
next
  case (Cons r rows)
  have "\<forall>(k, v) \<in> set (map_set (bo_file_path r)
          \<lparr>branchCount = bo_branch_count r, branches = bo_branches r,
           touchesMain = bo_touches_main r, prCount = 0, prNumbers = []\<rparr> m). \<not> touchesMain v"
    using Cons.prems by (intro map_set_values) auto
  with Cons.IH Cons.prems(2) show ?case by simp
qed

lemma merge_pr_rows_touchesMain:
  "\<forall>(k, v) \<in> set m. \<not> touchesMain v
     \<Longrightarrow> \<forall>(k, v) \<in> set (merge_pr_rows rows m). \<not> touchesMain v"
  unfolding merge_pr_rows_def
proof (induction rows arbitrary: m)
  case Nil
  then show ?case by simp
next
  case (Cons r rows)
  have "\<forall>(k, v) \<in> set (map_set (po_file_path r)
          ((case map_of m (po_file_path r) of Some e \<Rightarrow> e
            | None \<Rightarrow> \<lparr>branchCount = 0, branches = [], touchesMain = False,
                        prCount = 0, prNumbers = []\<rparr>)
             \<lparr>prCount := po_pr_count r, prNumbers := po_pr_numbers r\<rparr>) m). \<not> touchesMain v"
    using Cons.prems by (intro map_set_values) (auto split: option.splits dest!: map_of_SomeD)
  with Cons.IH show ?case by (simp add: Let_def)
qed

text \<open>
  Claim C6.  Every row of the branch-overlap query has \<open>touches_main = false\<close>: the
  trunk rows are filtered away before the aggregate is taken.  Hence no entry of the
  merged conflict map has the flag set, and the classifier decides every entry
  without its trunk rule: from the pull-request count and the branch count alone.
\<close>

theorem branch_overlap_never_touches_main:
  "(\<forall>r \<in> set (branch_overlap_query d now w wh). \<not> bo_touches_main r)
   \<and> (\<forall>(p, s) \<in> set (conflictMap d now w wh).
         \<not> touchesMain s
         \<and> classifySeverity s =
             (if prCount s \<ge> 2 then HIGH else if branchCount s \<ge> 3 then HIGH
              else if branchCount s \<ge> 2 then MEDIUM else LOW))"
proof -
  have a: "\<forall>r \<in> set (branch_overlap_query d now w wh). \<not> bo_touches_main r"
    by (simp add: branch_overlap_row_touches_main)
  have "\<forall>(k, v) \<in> set (merge_branch_rows (branch_overlap_query d now w wh) []). \<not> touchesMain v"
    by (rule merge_branch_rows_touchesMain) (simp_all add: a)
  then have b: "\<forall>(k, v) \<in> set (conflictMap d now w wh). \<not> touchesMain v"
    unfolding conflictMap_def by (rule merge_pr_rows_touchesMain)
  from a b show ?thesis
    by (auto simp: classifySeverity_def)
qed

theorem branch_overlap_never_touches_main_witness:
  "branch_overlap_query conflict_example_db 5000 ''w1'' 72 =
     [\<lparr>bo_file_path = ''a.js'', bo_branch_count = 2, bo_branches = [''feat-1'', ''feat-2''],
       bo_touches_main = False\<rparr>]
   \<and> list_ex (\<lambda>fa. fa_file_path fa = ''a.js'' \<and> fa_branch_name fa = ''main'')
         (file_activity conflict_example_db)
   \<and> map fst (conflictMap conflict_example_db 5000 ''w1'' 72) = [''a.js'', ''core.ts'']
   \<and> map (touchesMain \<circ> snd) (conflictMap conflict_example_db 5000 ''w1'' 72) = [False, False]
   \<and> map (classifySeverity \<circ> snd) (conflictMap conflict_example_db 5000 ''w1'' 72)
       = [MEDIUM, HIGH]"
proof -
  note t = branch_overlap_never_touches_main [of conflict_example_db 5000 "''w1''" 72]
  have e1: "map bo_file_path (branch_overlap_query conflict_example_db 5000 ''w1'' 72) = [''a.js'']"
    by code_simp
  have e2: "map bo_branch_count (branch_overlap_query conflict_example_db 5000 ''w1'' 72) = [2]"
    by code_simp
  have e3: "map bo_branches (branch_overlap_query conflict_example_db 5000 ''w1'' 72)
              = [[''feat-1'', ''feat-2'']]"
    by code_simp
  have e4: "list_ex (\<lambda>fa. fa_file_path fa = ''a.js'' \<and> fa_branch_name fa = ''main'')
         (file_activity conflict_example_db)"
    by code_simp
  have e5: "map fst (conflictMap conflict_example_db 5000 ''w1'' 72) = [''a.js'', ''core.ts'']"
    by code_simp
  have e6: "map (classifySeverity \<circ> snd) (conflictMap conflict_example_db 5000 ''w1'' 72)
       = [MEDIUM, HIGH]"
    by code_simp
  from e1 obtain r where r: "branch_overlap_query conflict_example_db 5000 ''w1'' 72 = [r]"
    by (cases "branch_overlap_query conflict_example_db 5000 ''w1'' 72") auto
  from t r have r4: "\<not> bo_touches_main r"
    by simp
  from e1 e2 e3 r r4 have q: "branch_overlap_query conflict_example_db 5000 ''w1'' 72 =
     [\<lparr>bo_file_path = ''a.js'', bo_branch_count = 2, bo_branches = [''feat-1'', ''feat-2''],
       bo_touches_main = False\<rparr>]"
    by (cases r) simp
  from e5 obtain x y where m: "conflictMap conflict_example_db 5000 ''w1'' 72 = [x, y]"
    by (cases "conflictMap conflict_example_db 5000 ''w1'' 72" rule: list.exhaust;
        cases "tl (conflictMap conflict_example_db 5000 ''w1'' 72)" rule: list.exhaust) auto
  from t m have "\<not> touchesMain (snd x) \<and> \<not> touchesMain (snd y)"
    by auto
  with m have e7: "map (touchesMain \<circ> snd) (conflictMap conflict_example_db 5000 ''w1'' 72)
       = [False, False]"
    by simp
  from q e4 e5 e6 e7 show ?thesis
    by simp
qed

section \<open>Stale-blocker resolution\<close>

lemma still_conflicting_branches_spec:
  "set (still_conflicting_branches d now w wh) = branch_conflict_paths d now w wh"
proof -
  define rows where "rows = filter (\<lambda>fa. fa_workspace_id fa = w
                          \<and> fa_branch_name fa \<notin> set trunk_branches
                          \<and> fa_updated_at fa > now - hours_interval wh) (file_activity d)"
  have grp: "set (map fa_branch_name (filter (\<lambda>fa. fa_file_path fa = p) rows)) =
      {fa_branch_name fa | fa.
         fa \<in> set (file_activity d) \<and> fa_workspace_id fa = w \<and> fa_file_path fa = p
         \<and> fa_branch_name fa \<noteq> ''main'' \<and> fa_branch_name fa \<noteq> ''master''
         \<and> now - hours_interval wh < fa_updated_at fa}" for p
    by (auto simp: rows_def trunk_branches_def)
  have mem: "p \<in> set (map fa_file_path rows)"
    if "2 \<le> card (set (map fa_branch_name (filter (\<lambda>fa. fa_file_path fa = p) rows)))" for p
  proof (cases "filter (\<lambda>fa. fa_file_path fa = p) rows")
    case Nil
    with that show ?thesis by simp
  next
    case (Cons x xs)
    then have "x \<in> set (filter (\<lambda>fa. fa_file_path fa = p) rows)" by simp
    then show ?thesis by auto
  qed
  have "set (still_conflicting_branches d now w wh) =
      {p. 2 \<le> card (set (map fa_branch_name (filter (\<lambda>fa. fa_file_path fa = p) rows)))}"
    unfolding still_conflicting_branches_def rows_def [symmetric] Let_def
    using mem by (auto simp: length_remdups_card_conv)
  then show ?thesis
    unfolding branch_conflict_paths_def grp .
qed

lemma set_open_pr_join:
  "set (open_pr_join d w) =
     {(pf, pr). pf \<in> set (pr_files d) \<and> pr \<in> set (pull_requests d)
        \<and> pr_id pr = pf_pr_id pf \<and> pr_workspace_id pr = w \<and> pr_state pr = PR_open}"
  by (auto simp: open_pr_join_def)

lemma still_conflicting_prs_spec:
  "set (still_conflicting_prs d w) = pr_conflict_paths d w"
proof -
  define rows where "rows = open_pr_join d w"
  have grp: "set (map (pr_id \<circ> snd) (filter (\<lambda>r. pf_file_path (fst r) = p) rows)) =
      {pr_id pr | pr.
         pr \<in> set (pull_requests d) \<and> pr_workspace_id pr = w \<and> pr_state pr = PR_open
         \<and> (\<exists>pf \<in> set (pr_files d). pf_pr_id pf = pr_id pr \<and> pf_file_path pf = p)}" for p
    unfolding rows_def by (force simp: set_open_pr_join)
  have mem: "p \<in> set (map (pf_file_path \<circ> fst) rows)"
    if "2 \<le> card (set (map (pr_id \<circ> snd) (filter (\<lambda>r. pf_file_path (fst r) = p) rows)))" for p
  proof (cases "filter (\<lambda>r. pf_file_path (fst r) = p) rows")
    case Nil
    with that show ?thesis by simp
  next
    case (Cons x xs)
    then have "x \<in> set (filter (\<lambda>r. pf_file_path (fst r) = p) rows)" by simp
    then show ?thesis by force
  qed
  have "set (still_conflicting_prs d w) =
      {p. 2 \<le> card (set (map (pr_id \<circ> snd) (filter (\<lambda>r. pf_file_path (fst r) = p) rows)))}"
    unfolding still_conflicting_prs_def rows_def [symmetric] Let_def
    using mem by (auto simp: length_remdups_card_conv)
  then show ?thesis
    unfolding pr_conflict_paths_def grp .
qed

lemma resolveStaleBlockers_spec:
  "blockers (resolveStaleBlockers d now w wh) =
     map (\<lambda>b. if b_workspace_id b = w \<and> b_type b = FILE_CONFLICT_RISK \<and> \<not> b_resolved b
                  \<and> b_reference_id b \<notin> conflict_set d now w wh
               then b\<lparr>b_resolved := True\<rparr> else b) (blockers d)"
  by (simp add: resolveStaleBlockers_def conflict_set_def still_conflicting_branches_spec
        still_conflicting_prs_spec)


lemma insert_blocker_frame:
  "insert_blocker d now w t r descr sev = Inr d' \<Longrightarrow> d' = d\<lparr>blockers := blockers d'\<rparr>"
  by (auto simp: insert_blocker_def split: if_splits)

lemma upsertConflictBlocker_frame:
  "upsertConflictBlocker d now w p sev descr = Inr d' \<Longrightarrow> d' = d\<lparr>blockers := blockers d'\<rparr>"
  by (auto simp: upsertConflictBlocker_def split: option.splits if_splits
        dest: insert_blocker_frame)

lemma upsert_all_frame:
  "upsert_all d now w cm = Inr d' \<Longrightarrow> d' = d\<lparr>blockers := blockers d'\<rparr>"
proof (induction d now w cm rule: upsert_all.induct)
  case (1 d now w)
  then show ?case by simp
next
  case (2 d now w filePath s rest)
  from "2.prems" obtain d1 where
    u: "upsertConflictBlocker d now w filePath (classifySeverity s) (buildDescription filePath s) = Inr d1"
    and r: "upsert_all d1 now w rest = Inr d'"
    by (auto split: sum.splits)
  from "2.IH" [OF u r] have "d' = d1\<lparr>blockers := blockers d'\<rparr>" .
  moreover from upsertConflictBlocker_frame [OF u] have "d1 = d\<lparr>blockers := blockers d1\<rparr>" .
  ultimately show ?case by (metis db.surjective db.update_convs(6))
qed

lemma conflict_set_blockers_update [simp]:
  "conflict_set (d\<lparr>blockers := bs\<rparr>) now w wh = conflict_set d now w wh"
  by (simp add: conflict_set_def branch_conflict_paths_def pr_conflict_paths_def)

lemma window_hours_of_blockers_update [simp]:
  "window_hours_of (d\<lparr>blockers := bs\<rparr>) w = window_hours_of d w"
  by (simp add: window_hours_of_def)

lemma resolveStaleBlockers_frame:
  "resolveStaleBlockers d now w wh = d\<lparr>blockers := blockers (resolveStaleBlockers d now w wh)\<rparr>"
  by (simp add: resolveStaleBlockers_def)

lemma resolveStaleBlockers_sound:
  assumes "b \<in> set (blockers (resolveStaleBlockers d now w wh))"
    and "b_workspace_id b = w" and "b_type b = FILE_CONFLICT_RISK" and "\<not> b_resolved b"
  shows "b_reference_id b \<in> conflict_set d now w wh"
proof -
  from assms(1) obtain b0 where b0: "b0 \<in> set (blockers d)"
    and b: "b = (if b_workspace_id b0 = w \<and> b_type b0 = FILE_CONFLICT_RISK \<and> \<not> b_resolved b0
                    \<and> b_reference_id b0 \<notin> conflict_set d now w wh
                 then b0\<lparr>b_resolved := True\<rparr> else b0)"
    unfolding resolveStaleBlockers_spec by auto
  show ?thesis
  proof (cases "b_workspace_id b0 = w \<and> b_type b0 = FILE_CONFLICT_RISK \<and> \<not> b_resolved b0
                    \<and> b_reference_id b0 \<notin> conflict_set d now w wh")
    case True
    with b assms(4) show ?thesis by simp
  next
    case False
    with b have "b = b0" by simp
    with False assms(2-4) show ?thesis by simp
  qed
qed

lemma runConflictEngine_committed:
  assumes "runConflictEngine d now w files br = (Committed, d', evs)"
  obtains d1 where "upsert_all d now w (conflictMap d now w (window_hours_of d w)) = Inr d1"
    and "d' = resolveStaleBlockers d1 now w (window_hours_of d w)"
    and "evs = map (\<lambda>(filePath, s).
                 (w, CONFLICT_WARNING filePath (branches s) (classifySeverity s)))
               (conflictMap d now w (window_hours_of d w))"
    and "files \<noteq> []"
  using assms by (auto simp: runConflictEngine_def Let_def split: if_splits sum.splits)

lemma runConflictEngine_sound:
  assumes run: "runConflictEngine d now w files br = (Committed, d', evs)"
    and b: "b \<in> set (blockers d')" "b_workspace_id b = w" "b_type b = FILE_CONFLICT_RISK"
      "\<not> b_resolved b"
  shows "b_reference_id b \<in> conflict_set d' now w (window_hours_of d' w)"
    and "b_reference_id b \<in> conflict_set d now w (window_hours_of d w)"
proof -
  from run obtain d1 where u: "upsert_all d now w (conflictMap d now w (window_hours_of d w)) = Inr d1"
    and d': "d' = resolveStaleBlockers d1 now w (window_hours_of d w)"
    by (rule runConflictEngine_committed)
  from upsert_all_frame [OF u] have f1: "d1 = d\<lparr>blockers := blockers d1\<rparr>" .
  have f2: "d' = d1\<lparr>blockers := blockers d'\<rparr>"
    unfolding d' by (rule resolveStaleBlockers_frame)
  from resolveStaleBlockers_sound [of b d1 now w "window_hours_of d w"] b d'
  have "b_reference_id b \<in> conflict_set d1 now w (window_hours_of d w)" by simp
  then show "b_reference_id b \<in> conflict_set d now w (window_hours_of d w)"
    by (subst (asm) f1) simp
  then show "b_reference_id b \<in> conflict_set d' now w (window_hours_of d' w)"
    by (subst f2, subst f1, subst f2, subst f1) simp
qed


text \<open>
  Claim C3.  \<^verbatim>\<open>resolveStaleBlockers\<close> sets \<open>resolved\<close> on exactly the unresolved
  file-conflict blockers of the workspace whose reference is outside the conflict
  set, and changes nothing else: no other table, and no blocker of another type or
  workspace.  After a conflict-engine run that commits, the conflict set is what it
  was when the run started, and every file path of a still unresolved file-conflict
  blocker of the workspace belongs to it.
\<close>

theorem resolveStaleBlockers_exact:
  "blockers (resolveStaleBlockers d now w wh) =
     map (\<lambda>b. if b_workspace_id b = w \<and> b_type b = FILE_CONFLICT_RISK \<and> \<not> b_resolved b
                  \<and> b_reference_id b \<notin> conflict_set d now w wh
               then b\<lparr>b_resolved := True\<rparr> else b) (blockers d)
   \<and> resolveStaleBlockers d now w wh = d\<lparr>blockers := blockers (resolveStaleBlockers d now w wh)\<rparr>
   \<and> (\<forall>i < length (blockers d).
         b_workspace_id (blockers d ! i) \<noteq> w \<or> b_type (blockers d ! i) \<noteq> FILE_CONFLICT_RISK
         \<longrightarrow> blockers (resolveStaleBlockers d now w wh) ! i = blockers d ! i)
   \<and> (runConflictEngine d now w files br = (Committed, d', evs) \<longrightarrow>
         conflict_set d' now w (window_hours_of d' w) = conflict_set d now w (window_hours_of d w)
         \<and> (\<forall>b \<in> set (blockers d').
               b_workspace_id b = w \<and> b_type b = FILE_CONFLICT_RISK \<and> \<not> b_resolved b
               \<longrightarrow> b_reference_id b \<in> conflict_set d' now w (window_hours_of d' w)))"
proof -
  have p1: "blockers (resolveStaleBlockers d now w wh) =
     map (\<lambda>b. if b_workspace_id b = w \<and> b_type b = FILE_CONFLICT_RISK \<and> \<not> b_resolved b
                  \<and> b_reference_id b \<notin> conflict_set d now w wh
               then b\<lparr>b_resolved := True\<rparr> else b) (blockers d)"
    by (rule resolveStaleBlockers_spec)
  have p2: "resolveStaleBlockers d now w wh
      = d\<lparr>blockers := blockers (resolveStaleBlockers d now w wh)\<rparr>"
    by (rule resolveStaleBlockers_frame)
  have p3: "\<forall>i < length (blockers d).
         b_workspace_id (blockers d ! i) \<noteq> w \<or> b_type (blockers d ! i) \<noteq> FILE_CONFLICT_RISK
         \<longrightarrow> blockers (resolveStaleBlockers d now w wh) ! i = blockers d ! i"
    unfolding p1 by auto
  have p4: "conflict_set d' now w (window_hours_of d' w) = conflict_set d now w (window_hours_of d w)
         \<and> (\<forall>b \<in> set (blockers d').
               b_workspace_id b = w \<and> b_type b = FILE_CONFLICT_RISK \<and> \<not> b_resolved b
               \<longrightarrow> b_reference_id b \<in> conflict_set d' now w (window_hours_of d' w))"
    if run: "runConflictEngine d now w files br = (Committed, d', evs)"
  proof -
    from run obtain d1 where
      u: "upsert_all d now w (conflictMap d now w (window_hours_of d w)) = Inr d1"
      and d': "d' = resolveStaleBlockers d1 now w (window_hours_of d w)"
      by (rule runConflictEngine_committed)
    from upsert_all_frame [OF u] have f1: "d1 = d\<lparr>blockers := blockers d1\<rparr>" .
    have f2: "d' = d1\<lparr>blockers := blockers d'\<rparr>"
      unfolding d' by (rule resolveStaleBlockers_frame)
    have "conflict_set d' now w (window_hours_of d' w) = conflict_set d now w (window_hours_of d w)"
      by (subst f2, subst f1, subst f2, subst f1) simp
    with runConflictEngine_sound(1) [OF run] show ?thesis by blast
  qed
  from p1 p2 p3 p4 show ?thesis by blast
qed

theorem resolveStaleBlockers_exact_witness:
  "fst conflict_example_run = Committed
   \<and> map (\<lambda>b. (b_id b, b_reference_id b, b_resolved b)) (blockers (fst (snd conflict_example_run)))
       = [(1, ''x.md'', True), (2, ''x.md'', False), (3, ''x.md'', False),
          (4, ''a.js'', False), (5, ''core.ts'', False)]
   \<and> ''a.js'' \<in> conflict_set conflict_example_db 5000 ''w1'' 72
   \<and> ''core.ts'' \<in> conflict_set conflict_example_db 5000 ''w1'' 72
   \<and> ''x.md'' \<notin> conflict_set conflict_example_db 5000 ''w1'' 72
   \<and> map b_resolved (blockers (resolveStaleBlockers conflict_example_db 5000 ''w1'' 72))
       = [True, False, False]"
proof -
  obtain d' evs where run: "runConflictEngine conflict_example_db 5000 ''w1'' [''a.js''] ''feat-2''
      = (fst conflict_example_run, d', evs)" and d': "d' = fst (snd conflict_example_run)"
    by (cases conflict_example_run) (simp add: conflict_example_run_def)
  have e1: "fst conflict_example_run = Committed"
    by code_simp
  have e2: "map (\<lambda>b. (b_id b, b_reference_id b, b_resolved b))
              (blockers (fst (snd conflict_example_run)))
       = [(1, ''x.md'', True), (2, ''x.md'', False), (3, ''x.md'', False),
          (4, ''a.js'', False), (5, ''core.ts'', False)]"
    by code_simp
  have e3: "list_ex (\<lambda>b. b_workspace_id b = ''w1'' \<and> b_type b = FILE_CONFLICT_RISK
                 \<and> \<not> b_resolved b \<and> b_reference_id b = ''a.js'')
              (blockers (fst (snd conflict_example_run)))"
    by code_simp
  have e4: "list_ex (\<lambda>b. b_workspace_id b = ''w1'' \<and> b_type b = FILE_CONFLICT_RISK
                 \<and> \<not> b_resolved b \<and> b_reference_id b = ''core.ts'')
              (blockers (fst (snd conflict_example_run)))"
    by code_simp
  have e5: "window_hours_of conflict_example_db ''w1'' = 72"
    by code_simp
  have e6: "map b_resolved (blockers (resolveStaleBlockers conflict_example_db 5000 ''w1'' 72))
       = [True, False, False]"
    by code_simp
  have e7: "map (\<lambda>b. (b_workspace_id b, b_type b, b_resolved b, b_reference_id b))
              (blockers conflict_example_db)
       = [(''w1'', FILE_CONFLICT_RISK, False, ''x.md''), (''w1'', DEPENDENCY_BLOCK, False, ''x.md''),
          (''w2'', FILE_CONFLICT_RISK, False, ''x.md'')]"
    by code_simp
  note t = resolveStaleBlockers_exact [of conflict_example_db 5000 "''w1''" 72 "[''a.js'']"
      "''feat-2''" d' evs]
  from run e1 have run': "runConflictEngine conflict_example_db 5000 ''w1'' [''a.js''] ''feat-2''
      = (Committed, d', evs)"
    by simp
  from t run' have t4: "conflict_set d' 5000 ''w1'' (window_hours_of d' ''w1'')
        = conflict_set conflict_example_db 5000 ''w1'' (window_hours_of conflict_example_db ''w1'')"
    and t5: "\<forall>b \<in> set (blockers d').
      b_workspace_id b = ''w1'' \<and> b_type b = FILE_CONFLICT_RISK \<and> \<not> b_resolved b
      \<longrightarrow> b_reference_id b \<in> conflict_set d' 5000 ''w1'' (window_hours_of d' ''w1'')"
    by blast+
  from t5 have cs: "\<forall>b \<in> set (blockers d').
      b_workspace_id b = ''w1'' \<and> b_type b = FILE_CONFLICT_RISK \<and> \<not> b_resolved b
      \<longrightarrow> b_reference_id b \<in> conflict_set conflict_example_db 5000 ''w1'' 72"
    unfolding t4 e5 .
  from cs e3 d' have a: "''a.js'' \<in> conflict_set conflict_example_db 5000 ''w1'' 72"
    by (auto simp: list_ex_iff)
  from cs e4 d' have c: "''core.ts'' \<in> conflict_set conflict_example_db 5000 ''w1'' 72"
    by (auto simp: list_ex_iff)
  from t have m: "blockers (resolveStaleBlockers conflict_example_db 5000 ''w1'' 72) =
     map (\<lambda>b. if b_workspace_id b = ''w1'' \<and> b_type b = FILE_CONFLICT_RISK \<and> \<not> b_resolved b
                  \<and> b_reference_id b \<notin> conflict_set conflict_example_db 5000 ''w1'' 72
               then b\<lparr>b_resolved := True\<rparr> else b) (blockers conflict_example_db)"
    by blast
  obtain b1 b2 b3 where bs: "blockers conflict_example_db = [b1, b2, b3]"
    and b1: "b_workspace_id b1 = ''w1''" "b_type b1 = FILE_CONFLICT_RISK" "\<not> b_resolved b1"
      "b_reference_id b1 = ''x.md''"
    using e7 by auto
  have x: "''x.md'' \<notin> conflict_set conflict_example_db 5000 ''w1'' 72"
  proof
    assume "''x.md'' \<in> conflict_set conflict_example_db 5000 ''w1'' 72"
    with m bs b1 have "hd (blockers (resolveStaleBlockers conflict_example_db 5000 ''w1'' 72)) = b1"
      by simp
    with e6 b1(3) show False
      by (cases "blockers (resolveStaleBlockers conflict_example_db 5000 ''w1'' 72)") auto
  qed
  from e1 e2 a c x e6 show ?thesis by simp
qed

section \<open>Blocker uniqueness\<close>

lemma unresolved_keys_append [simp]:
  "unresolved_keys (bs @ cs) = unresolved_keys bs @ unresolved_keys cs"
  by (simp add: unresolved_keys_def)

lemma active_key_unresolved_keys:
  "list_ex (active_key w t r) bs \<longleftrightarrow> (w, t, r) \<in> set (unresolved_keys bs)"
  by (auto simp: list_ex_iff active_key_def unresolved_keys_def)

lemma unresolved_keys_map_keep:
  assumes "\<And>b. b_workspace_id (f b) = b_workspace_id b \<and> b_type (f b) = b_type b
              \<and> b_reference_id (f b) = b_reference_id b \<and> b_resolved (f b) = b_resolved b"
  shows "unresolved_keys (map f bs) = unresolved_keys bs"
  by (induction bs) (simp_all add: unresolved_keys_def assms)

lemma unresolved_keys_map_resolve:
  "unresolved_keys (map (\<lambda>b. if C b then b\<lparr>b_resolved := True\<rparr> else b) bs)
     = unresolved_keys (filter (\<lambda>b. \<not> C b) bs)"
  by (induction bs) (simp_all add: unresolved_keys_def)

lemma blocker_uniqueness_filter:
  "blocker_uniqueness bs \<Longrightarrow> blocker_uniqueness (filter P bs)"
proof -
  assume "blocker_uniqueness bs"
  then have d: "distinct (map (\<lambda>b. (b_workspace_id b, b_type b, b_reference_id b))
                  (filter (\<lambda>b. \<not> b_resolved b) bs))"
    by (simp add: blocker_uniqueness_def unresolved_keys_def)
  have "filter (\<lambda>b. \<not> b_resolved b) (filter P bs) = filter P (filter (\<lambda>b. \<not> b_resolved b) bs)"
    by (induction bs) auto
  then have "unresolved_keys (filter P bs)
      = map (\<lambda>b. (b_workspace_id b, b_type b, b_reference_id b))
          (filter P (filter (\<lambda>b. \<not> b_resolved b) bs))"
    by (simp only: unresolved_keys_def)
  with distinct_map_filter [OF d, of P] show ?thesis
    by (simp only: blocker_uniqueness_def)
qed

lemma insert_blocker_uniqueness:
  "blocker_uniqueness (blockers d) \<Longrightarrow> insert_blocker d now w t r descr sev = Inr d'
     \<Longrightarrow> blocker_uniqueness (blockers d')"
  by (auto simp: insert_blocker_def blocker_uniqueness_def active_key_unresolved_keys
        unresolved_keys_def split: if_splits)

lemma upsertConflictBlocker_uniqueness:
  assumes "blocker_uniqueness (blockers d)"
    and "upsertConflictBlocker d now w p sev descr = Inr d'"
  shows "blocker_uniqueness (blockers d')"
proof (cases "find (active_key w FILE_CONFLICT_RISK p) (blockers d)")
  case None
  with assms show ?thesis
    by (auto simp: upsertConflictBlocker_def dest: insert_blocker_uniqueness)
next
  case (Some current)
  have "unresolved_keys (map (\<lambda>b. if b_id b = b_id current
           then b\<lparr>b_severity := sev, b_description := descr\<rparr> else b) (blockers d))
        = unresolved_keys (blockers d)"
    by (rule unresolved_keys_map_keep) simp
  with Some assms show ?thesis
    by (auto simp: upsertConflictBlocker_def blocker_uniqueness_def split: if_splits)
qed

lemma insert_dependency_block_uniqueness:
  "blocker_uniqueness (blockers d) \<Longrightarrow> insert_dependency_block d now w fid descr = Inr d'
     \<Longrightarrow> blocker_uniqueness (blockers d')"
  by (auto simp: insert_dependency_block_def split: if_splits dest: insert_blocker_uniqueness)

lemma resolve_dependency_block_uniqueness:
  "blocker_uniqueness (blockers d) \<Longrightarrow> blocker_uniqueness (blockers (resolve_dependency_block d w fid))"
  unfolding resolve_dependency_block_def
  by (simp add: blocker_uniqueness_def unresolved_keys_map_resolve
        blocker_uniqueness_filter [unfolded blocker_uniqueness_def])

lemma resolveStaleBlockers_uniqueness:
  "blocker_uniqueness (blockers d) \<Longrightarrow> blocker_uniqueness (blockers (resolveStaleBlockers d now w wh))"
  unfolding resolveStaleBlockers_def
  by (simp add: blocker_uniqueness_def unresolved_keys_map_resolve
        blocker_uniqueness_filter [unfolded blocker_uniqueness_def])


lemma upsert_all_uniqueness:
  "blocker_uniqueness (blockers d) \<Longrightarrow> upsert_all d now w cm = Inr d'
     \<Longrightarrow> blocker_uniqueness (blockers d')"
proof (induction d now w cm rule: upsert_all.induct)
  case (1 d now w)
  then show ?case by simp
next
  case (2 d now w filePath s rest)
  from "2.prems"(2) obtain d1 where
    u: "upsertConflictBlocker d now w filePath (classifySeverity s) (buildDescription filePath s) = Inr d1"
    and r: "upsert_all d1 now w rest = Inr d'"
    by (auto split: sum.splits)
  from upsertConflictBlocker_uniqueness [OF "2.prems"(1) u]
  have "blocker_uniqueness (blockers d1)" .
  with "2.IH" [OF u] r show ?case by simp
qed

lemma runConflictEngine_uniqueness:
  assumes "blocker_uniqueness (blockers d)"
  shows "blocker_uniqueness (blockers (fst (snd (runConflictEngine d now w files br))))"
  using assms
  by (auto simp: runConflictEngine_def Let_def split: sum.splits
        intro!: resolveStaleBlockers_uniqueness dest: upsert_all_uniqueness)

lemma set_completion_percentage_blockers:
  "set_completion_percentage d fid pct = Inr d' \<Longrightarrow> blockers d' = blockers d"
  by (auto simp: set_completion_percentage_def split: if_splits)

lemma dependency_step_uniqueness:
  assumes "blocker_uniqueness (blockers d)" and "dependency_step d now w f = (r, d', evs)"
  shows "blocker_uniqueness (blockers d')"
proof (cases "incomplete_dependencies d (f_id f) \<noteq> []")
  case True
  let ?d1 = "set_feature_status d (f_id f) BLOCKED"
  have u1: "blocker_uniqueness (blockers ?d1)"
    using assms(1) by (simp add: set_feature_status_def)
  from True assms(2) show ?thesis
    using u1 insert_dependency_block_uniqueness [OF u1]
    by (auto simp: dependency_step_def Let_def split: sum.splits)
next
  case False
  have "blocker_uniqueness (blockers (set_feature_status d (f_id f) ACTIVE))"
    using assms(1) by (simp add: set_feature_status_def)
  from resolve_dependency_block_uniqueness [OF this] False assms show ?thesis
    by (auto simp: dependency_step_def Let_def split: if_splits)
qed

lemma process_feature_uniqueness:
  assumes "blocker_uniqueness (blockers d)" and "process_feature d now w f = (r, d', evs)"
  shows "blocker_uniqueness (blockers d')"
proof -
  obtain r1 d1 evs1 where s: "dependency_step d now w f = (r1, d1, evs1)"
    by (cases "dependency_step d now w f") auto
  from dependency_step_uniqueness [OF assms(1) s] have u: "blocker_uniqueness (blockers d1)" .
  from assms(2) s u show ?thesis
    by (auto simp: process_feature_def Let_def split: option.splits sum.splits
          dest: set_completion_percentage_blockers)
qed

lemma feature_loop_uniqueness:
  "blocker_uniqueness (blockers d) \<Longrightarrow> feature_loop d now w fs = (r, d', evs)
     \<Longrightarrow> blocker_uniqueness (blockers d')"
proof (induction fs arbitrary: d r d' evs)
  case Nil
  then show ?case by simp
next
  case (Cons f fs)
  obtain r1 d1 evs1 where p: "process_feature d now w f = (r1, d1, evs1)"
    by (cases "process_feature d now w f") auto
  from process_feature_uniqueness [OF Cons.prems(1) p] have u: "blocker_uniqueness (blockers d1)" .
  show ?case
  proof (cases r1)
    case None
    obtain r2 d2 evs2 where l: "feature_loop d1 now w fs = (r2, d2, evs2)"
      by (cases "feature_loop d1 now w fs") auto
    from Cons.IH [OF u l] Cons.prems(2) p None l show ?thesis by simp
  next
    case (Some e)
    with Cons.prems(2) p u show ?thesis by simp
  qed
qed

lemma recalculate_blockers [simp]: "blockers (fst (recalculate d now w)) = blockers d"
  by (simp add: recalculate_def Let_def)

lemma runFeatureEngine_uniqueness:
  assumes "blocker_uniqueness (blockers d)"
  shows "blocker_uniqueness (blockers (fst (snd (runFeatureEngine d now w files c))))"
proof (cases "files = []")
  case True
  with assms show ?thesis by (simp add: runFeatureEngine_def)
next
  case False
  let ?fs = "filter (\<lambda>f. f_workspace_id f = w \<and> f_status f \<noteq> COMPLETE) (features d)"
  obtain r d1 evs where l: "feature_loop d now w ?fs = (r, d1, evs)"
    by (cases "feature_loop d now w ?fs") auto
  from feature_loop_uniqueness [OF assms l] have u: "blocker_uniqueness (blockers d1)" .
  show ?thesis
  proof (cases r)
    case None
    obtain d2 evs2 where rc: "recalculate d1 now w = (d2, evs2)"
      by (cases "recalculate d1 now w") auto
    from recalculate_blockers [of d1 now w] rc have "blockers d2 = blockers d1" by simp
    with False l None rc u show ?thesis by (simp add: runFeatureEngine_def)
  next
    case (Some e)
    with False l u show ?thesis by (simp add: runFeatureEngine_def)
  qed
qed

lemma filter_eq_le_1_distinct: "distinct xs \<Longrightarrow> length (filter (\<lambda>x. x = k) xs) \<le> 1"
  by (induction xs) (auto simp: filter_empty_conv)

lemma distinct_if_filter_le_1:
  "(\<And>k. length (filter (\<lambda>x. x = k) xs) \<le> 1) \<Longrightarrow> distinct xs"
proof (induction xs)
  case Nil
  then show ?case by simp
next
  case (Cons x xs)
  have le: "length (filter (\<lambda>y. y = k) xs) \<le> 1" for k
  proof -
    have "length (filter (\<lambda>y. y = k) xs) \<le> length (filter (\<lambda>y. y = k) (x # xs))"
      by simp
    also have "\<dots> \<le> 1" by (rule Cons.prems)
    finally show ?thesis .
  qed
  then have dx: "distinct xs" by (rule Cons.IH)
  from Cons.prems [of x] have "filter (\<lambda>y. y = x) xs = []" by simp
  then have "x \<notin> set xs" by (auto simp: filter_empty_conv)
  with dx show ?case by simp
qed

lemma blocker_uniqueness_count:
  "blocker_uniqueness bs \<longleftrightarrow> (\<forall>w t r. length (filter (active_key w t r) bs) \<le> 1)"
proof -
  have len: "length (filter (active_key w t r) bs)
      = length (filter (\<lambda>k. k = (w, t, r)) (unresolved_keys bs))" for w t r
    by (induction bs) (auto simp: unresolved_keys_def active_key_def)
  show ?thesis
  proof
    assume "blocker_uniqueness bs"
    then show "\<forall>w t r. length (filter (active_key w t r) bs) \<le> 1"
      unfolding len blocker_uniqueness_def by (intro allI filter_eq_le_1_distinct)
  next
    assume a: "\<forall>w t r. length (filter (active_key w t r) bs) \<le> 1"
    show "blocker_uniqueness bs"
      unfolding blocker_uniqueness_def
    proof (rule distinct_if_filter_le_1)
      fix k :: "uuid \<times> blocker_type \<times> string"
      obtain w t r where k: "k = (w, t, r)" by (cases k) auto
      from a have "length (filter (active_key w t r) bs) \<le> 1" by blast
      then show "length (filter (\<lambda>x. x = k) (unresolved_keys bs)) \<le> 1"
        unfolding len k .
    qed
  qed
qed


text \<open>
  Claim C4.  Each operation that writes blockers preserves invariant I1 (at most one
  unresolved blocker per workspace, type and reference; \<open>blocker_uniqueness_count\<close>
  gives the counting form): the conflict upsert, the feature engine's insert and
  resolve of a dependency blocker, and the stale-blocker resolution; hence so do
  whole runs of the conflict engine and of the feature engine, whatever their outcome.
\<close>

theorem blocker_writes_preserve_uniqueness:
  assumes "blocker_uniqueness (blockers d)"
  shows "(\<forall>d'. upsertConflictBlocker d now w p sev descr = Inr d'
              \<longrightarrow> blocker_uniqueness (blockers d'))
       \<and> (\<forall>d'. insert_dependency_block d now w fid descr' = Inr d'
              \<longrightarrow> blocker_uniqueness (blockers d'))
       \<and> blocker_uniqueness (blockers (resolve_dependency_block d w fid))
       \<and> blocker_uniqueness (blockers (resolveStaleBlockers d now w wh))
       \<and> blocker_uniqueness (blockers (fst (snd (runConflictEngine d now w files br))))
       \<and> blocker_uniqueness (blockers (fst (snd (runFeatureEngine d now w files c))))"
proof (intro conjI allI impI)
  fix d'
  assume "upsertConflictBlocker d now w p sev descr = Inr d'"
  with assms show "blocker_uniqueness (blockers d')"
    by (rule upsertConflictBlocker_uniqueness)
next
  fix d'
  assume "insert_dependency_block d now w fid descr' = Inr d'"
  with assms show "blocker_uniqueness (blockers d')"
    by (rule insert_dependency_block_uniqueness)
next
  from assms show "blocker_uniqueness (blockers (resolve_dependency_block d w fid))"
    by (rule resolve_dependency_block_uniqueness)
next
  from assms show "blocker_uniqueness (blockers (resolveStaleBlockers d now w wh))"
    by (rule resolveStaleBlockers_uniqueness)
next
  from assms show "blocker_uniqueness (blockers (fst (snd (runConflictEngine d now w files br))))"
    by (rule runConflictEngine_uniqueness)
next
  from assms show "blocker_uniqueness (blockers (fst (snd (runFeatureEngine d now w files c))))"
    by (rule runFeatureEngine_uniqueness)
qed

theorem blocker_writes_preserve_uniqueness_witness:
  "blocker_uniqueness (blockers conflict_example_db)
   \<and> (\<exists>d'. upsertConflictBlocker conflict_example_db 5000 ''w1'' ''a.js'' MEDIUM ''two branches''
              = Inr d'
            \<and> length (blockers d') = 4 \<and> blocker_uniqueness (blockers d'))
   \<and> (\<exists>d'. insert_dependency_block conflict_example_db 5000 ''w1'' ''f3'' ''blocked'' = Inr d'
            \<and> length (blockers d') = 4 \<and> blocker_uniqueness (blockers d'))
   \<and> blocker_uniqueness (blockers (resolve_dependency_block conflict_example_db ''w1'' ''x.md''))
   \<and> blocker_uniqueness (blockers (resolveStaleBlockers conflict_example_db 5000 ''w1'' 72))
   \<and> blocker_uniqueness (blockers (fst (snd conflict_example_run)))
   \<and> blocker_uniqueness (blockers (fst (snd
         (runFeatureEngine conflict_example_db 5000 ''w1'' [''a.js''] ''c9''))))"
proof -
  have u: "blocker_uniqueness (blockers conflict_example_db)"
    by code_simp
  note t = blocker_writes_preserve_uniqueness [OF u, of 5000 "''w1''" "''a.js''" MEDIUM
      "''two branches''" "''f3''" "''blocked''" 72 "[''a.js'']" "''feat-2''" "''c9''"]
  note t' = blocker_writes_preserve_uniqueness [OF u, of 5000 "''w1''" "''a.js''" MEDIUM
      "''two branches''" "''x.md''" "''blocked''" 72 "[''a.js'']" "''feat-2''" "''c9''"]
  have e1: "case upsertConflictBlocker conflict_example_db 5000 ''w1'' ''a.js'' MEDIUM
               ''two branches'' of Inl e \<Rightarrow> False | Inr d' \<Rightarrow> length (blockers d') = 4"
    by code_simp
  have e2: "case insert_dependency_block conflict_example_db 5000 ''w1'' ''f3'' ''blocked'' of
              Inl e \<Rightarrow> False | Inr d' \<Rightarrow> length (blockers d') = 4"
    by code_simp
  from e1 t have a: "\<exists>d'. upsertConflictBlocker conflict_example_db 5000 ''w1'' ''a.js'' MEDIUM
        ''two branches'' = Inr d' \<and> length (blockers d') = 4 \<and> blocker_uniqueness (blockers d')"
    by (auto split: sum.splits)
  from e2 t have b: "\<exists>d'. insert_dependency_block conflict_example_db 5000 ''w1'' ''f3''
        ''blocked'' = Inr d' \<and> length (blockers d') = 4 \<and> blocker_uniqueness (blockers d')"
    by (auto split: sum.splits)
  from u a b t' show ?thesis
    by (simp add: conflict_example_run_def)
qed

section \<open>Repeated conflict-engine runs\<close>

lemma find_in_set: "find P xs = Some x \<Longrightarrow> x \<in> set xs \<and> P x"
  by (induction xs) (auto split: if_splits)

lemma find_append_cases:
  "find P (xs @ ys) = (case find P xs of None \<Rightarrow> find P ys | Some x \<Rightarrow> Some x)"
  by (induction xs) auto

lemma find_map_same:
  "(\<And>x. P (f x) = P x) \<Longrightarrow> find P (map f xs) = map_option f (find P xs)"
  by (induction xs) auto

lemma find_map_stable:
  "(\<And>x. x \<in> set xs \<Longrightarrow> P x \<Longrightarrow> g x = x) \<Longrightarrow> (\<And>x. x \<in> set xs \<Longrightarrow> \<not> P x \<Longrightarrow> \<not> P (g x))
     \<Longrightarrow> find P (map g xs) = find P xs"
  by (induction xs) auto

lemma fold_max_ge: "a \<le> fold max xs (a::nat)"
  by (induction xs arbitrary: a) (auto intro: order_trans [OF max.cobounded2])

lemma fold_max_upper: "x \<in> set xs \<Longrightarrow> x \<le> fold max xs (a::nat)"
proof (induction xs arbitrary: a)
  case Nil
  then show ?case by simp
next
  case (Cons y ys)
  show ?case
  proof (cases "x = y")
    case True
    have "y \<le> max y a" by simp
    also have "\<dots> \<le> fold max ys (max y a)" by (rule fold_max_ge)
    finally show ?thesis using True by simp
  next
    case False
    with Cons show ?thesis by simp
  qed
qed

lemma fresh_blocker_id_fresh: "fresh_blocker_id bs \<notin> set (map b_id bs)"
proof
  assume "fresh_blocker_id bs \<in> set (map b_id bs)"
  from fold_max_upper [OF this, of 0] show False
    by (simp add: fresh_blocker_id_def)
qed

lemma map_b_id_update:
  "map (b_id \<circ> (\<lambda>b. if C b then b\<lparr>b_severity := s, b_description := t\<rparr> else b)) bs
     = map b_id bs"
  by (induction bs) auto

lemma upsertConflictBlocker_ids:
  assumes "distinct (map b_id (blockers d))"
    and "upsertConflictBlocker d now w p sev descr = Inr d'"
  shows "distinct (map b_id (blockers d'))"
proof (cases "find (active_key w FILE_CONFLICT_RISK p) (blockers d)")
  case None
  with assms fresh_blocker_id_fresh [of "blockers d"] show ?thesis
    by (auto simp: upsertConflictBlocker_def insert_blocker_def split: if_splits)
next
  case (Some current)
  with assms show ?thesis
    by (auto simp: upsertConflictBlocker_def map_b_id_update split: if_splits)
qed

lemma upsertConflictBlocker_settles:
  assumes "upsertConflictBlocker d now w p (classifySeverity s) descr = Inr d'"
  shows "settled (blockers d') w (p, s)"
proof (cases "find (active_key w FILE_CONFLICT_RISK p) (blockers d)")
  case None
  with assms show ?thesis
    by (auto simp: upsertConflictBlocker_def insert_blocker_def settled_def find_append_cases
          active_key_def split: if_splits)
next
  case (Some current)
  show ?thesis
  proof (cases "b_severity current = classifySeverity s")
    case True
    with Some assms show ?thesis
      by (auto simp: upsertConflictBlocker_def settled_def)
  next
    case False
    let ?f = "\<lambda>b. if b_id b = b_id current
           then b\<lparr>b_severity := classifySeverity s, b_description := descr\<rparr> else b"
    have "find (active_key w FILE_CONFLICT_RISK p) (map ?f (blockers d))
        = map_option ?f (find (active_key w FILE_CONFLICT_RISK p) (blockers d))"
      by (rule find_map_same) (simp add: active_key_def)
    with Some False assms show ?thesis
      by (auto simp: upsertConflictBlocker_def settled_def)
  qed
qed

lemma upsertConflictBlocker_keeps_settled:
  assumes ids: "distinct (map b_id (blockers d))"
    and up: "upsertConflictBlocker d now w p sev descr = Inr d'"
    and other: "fst e \<noteq> p"
    and st: "settled (blockers d) w e"
  shows "settled (blockers d') w e"
proof -
  from st obtain b where b: "find (active_key w FILE_CONFLICT_RISK (fst e)) (blockers d) = Some b"
    and sev: "b_severity b = classifySeverity (snd e)"
    by (auto simp: settled_def split: option.splits)
  from find_in_set [OF b] have bin: "b \<in> set (blockers d)"
    and bkey: "active_key w FILE_CONFLICT_RISK (fst e) b" by simp_all
  show ?thesis
  proof (cases "find (active_key w FILE_CONFLICT_RISK p) (blockers d)")
    case None
    with up b sev show ?thesis
      by (auto simp: upsertConflictBlocker_def insert_blocker_def settled_def find_append_cases
            split: if_splits)
  next
    case (Some current)
    from find_in_set [OF Some] have cin: "current \<in> set (blockers d)"
      and ckey: "active_key w FILE_CONFLICT_RISK p current" by simp_all
    from bkey ckey other have "b \<noteq> current"
      by (auto simp: active_key_def)
    with ids bin cin have idne: "b_id b \<noteq> b_id current"
      by (auto simp: distinct_map dest: inj_onD)
    let ?f = "\<lambda>x. if b_id x = b_id current
           then x\<lparr>b_severity := sev, b_description := descr\<rparr> else x"
    have "find (active_key w FILE_CONFLICT_RISK (fst e)) (map ?f (blockers d))
        = map_option ?f (find (active_key w FILE_CONFLICT_RISK (fst e)) (blockers d))"
      by (rule find_map_same) (simp add: active_key_def)
    with b idne have "find (active_key w FILE_CONFLICT_RISK (fst e)) (map ?f (blockers d)) = Some b"
      by simp
    with Some up sev b show ?thesis
      by (auto simp: upsertConflictBlocker_def settled_def split: if_splits)
  qed
qed

lemma upsertConflictBlocker_settled_noop:
  "settled (blockers d) w (p, s)
     \<Longrightarrow> upsertConflictBlocker d now w p (classifySeverity s) descr = Inr d"
  by (auto simp: settled_def upsertConflictBlocker_def split: option.splits)




lemma map_set_keys_in:
  "k \<in> set (map fst m) \<Longrightarrow> map fst (map_set k v m) = map fst m"
  by (induction m) force+

lemma map_set_keys_out:
  "k \<notin> set (map fst m) \<Longrightarrow> map fst (map_set k v m) = map fst m @ [k]"
  by (induction m) force+

lemma map_set_distinct:
  assumes "distinct (map fst m)"
  shows "distinct (map fst (map_set k v m))"
proof (cases "k \<in> set (map fst m)")
  case True
  from map_set_keys_in [OF True, of v] assms show ?thesis by simp
next
  case False
  from map_set_keys_out [OF False, of v] assms False show ?thesis by simp
qed

lemma map_set_key_set: "set (map fst (map_set k v m)) = insert k (set (map fst m))"
proof (cases "k \<in> set (map fst m)")
  case True
  from map_set_keys_in [OF True, of v] True show ?thesis by (simp add: insert_absorb)
next
  case False
  from map_set_keys_out [OF False, of v] show ?thesis by simp
qed

lemma merge_branch_rows_keys:
  "distinct (map fst m) \<Longrightarrow>
     distinct (map fst (merge_branch_rows rows m))
     \<and> set (map fst (merge_branch_rows rows m)) = set (map fst m) \<union> set (map bo_file_path rows)"
  unfolding merge_branch_rows_def
proof (induction rows arbitrary: m)
  case Nil
  then show ?case by simp
next
  case (Cons r rows)
  let ?m = "map_set (bo_file_path r)
          \<lparr>branchCount = bo_branch_count r, branches = bo_branches r,
           touchesMain = bo_touches_main r, prCount = 0, prNumbers = []\<rparr> m"
  from Cons.prems have "distinct (map fst ?m)" by (rule map_set_distinct)
  from Cons.IH [OF this] show ?case
    by (simp add: map_set_key_set del: set_map)
qed

lemma merge_pr_rows_keys:
  "distinct (map fst m) \<Longrightarrow>
     distinct (map fst (merge_pr_rows rows m))
     \<and> set (map fst (merge_pr_rows rows m)) = set (map fst m) \<union> set (map po_file_path rows)"
  unfolding merge_pr_rows_def
proof (induction rows arbitrary: m)
  case Nil
  then show ?case by simp
next
  case (Cons r rows)
  let ?m = "map_set (po_file_path r)
          ((case map_of m (po_file_path r) of Some e \<Rightarrow> e
            | None \<Rightarrow> \<lparr>branchCount = 0, branches = [], touchesMain = False,
                        prCount = 0, prNumbers = []\<rparr>)
             \<lparr>prCount := po_pr_count r, prNumbers := po_pr_numbers r\<rparr>) m"
  from Cons.prems have "distinct (map fst ?m)" by (rule map_set_distinct)
  from Cons.IH [OF this] show ?case
    by (simp add: map_set_key_set Let_def del: set_map)
qed

lemma branch_overlap_paths:
  "map bo_file_path (branch_overlap_query d now w wh) = still_conflicting_branches d now w wh"
  by (simp add: branch_overlap_query_def still_conflicting_branches_def Let_def filter_map
        comp_def)

lemma pr_overlap_paths:
  "map po_file_path (pr_overlap_query d w) = still_conflicting_prs d w"
  by (simp add: pr_overlap_query_def still_conflicting_prs_def Let_def filter_map comp_def)

lemma conflictMap_keys:
  "distinct (map fst (conflictMap d now w wh))"
  "set (map fst (conflictMap d now w wh))
     = set (still_conflicting_branches d now w wh) \<union> set (still_conflicting_prs d w)"
proof -
  from merge_branch_rows_keys [of "[]" "branch_overlap_query d now w wh"]
  have b: "distinct (map fst (merge_branch_rows (branch_overlap_query d now w wh) []))
     \<and> set (map fst (merge_branch_rows (branch_overlap_query d now w wh) []))
         = set (map bo_file_path (branch_overlap_query d now w wh))"
    by simp
  then have "distinct (map fst (merge_branch_rows (branch_overlap_query d now w wh) []))" ..
  from merge_pr_rows_keys [OF this, of "pr_overlap_query d w"] b
  show "distinct (map fst (conflictMap d now w wh))"
    and "set (map fst (conflictMap d now w wh))
     = set (still_conflicting_branches d now w wh) \<union> set (still_conflicting_prs d w)"
    unfolding conflictMap_def branch_overlap_paths pr_overlap_paths by simp_all
qed




lemma upsert_all_ids:
  "distinct (map b_id (blockers d)) \<Longrightarrow> upsert_all d now w cm = Inr d'
     \<Longrightarrow> distinct (map b_id (blockers d'))"
proof (induction d now w cm rule: upsert_all.induct)
  case (1 d now w)
  then show ?case by simp
next
  case (2 d now w filePath s rest)
  from "2.prems"(2) obtain d1 where
    u: "upsertConflictBlocker d now w filePath (classifySeverity s) (buildDescription filePath s) = Inr d1"
    and r: "upsert_all d1 now w rest = Inr d'"
    by (auto split: sum.splits)
  from upsertConflictBlocker_ids [OF "2.prems"(1) u] have "distinct (map b_id (blockers d1))" .
  with "2.IH" [OF u] r show ?case by simp
qed

lemma upsert_all_keeps_settled:
  "distinct (map b_id (blockers d)) \<Longrightarrow> upsert_all d now w cm = Inr d'
     \<Longrightarrow> fst e \<notin> set (map fst cm) \<Longrightarrow> settled (blockers d) w e
     \<Longrightarrow> settled (blockers d') w e"
proof (induction d now w cm rule: upsert_all.induct)
  case (1 d now w)
  then show ?case by simp
next
  case (2 d now w filePath s rest)
  from "2.prems"(2) obtain d1 where
    u: "upsertConflictBlocker d now w filePath (classifySeverity s) (buildDescription filePath s) = Inr d1"
    and r: "upsert_all d1 now w rest = Inr d'"
    by (auto split: sum.splits)
  from upsertConflictBlocker_ids [OF "2.prems"(1) u] have i1: "distinct (map b_id (blockers d1))" .
  from "2.prems"(3) have ne: "fst e \<noteq> filePath" and nr: "fst e \<notin> set (map fst rest)"
    by auto
  from upsertConflictBlocker_keeps_settled [OF "2.prems"(1) u ne "2.prems"(4)]
  have "settled (blockers d1) w e" .
  with "2.IH" [OF u i1 r nr] show ?case by simp
qed

lemma upsert_all_settles:
  "distinct (map b_id (blockers d)) \<Longrightarrow> distinct (map fst cm) \<Longrightarrow> upsert_all d now w cm = Inr d'
     \<Longrightarrow> e \<in> set cm \<Longrightarrow> settled (blockers d') w e"
proof (induction d now w cm rule: upsert_all.induct)
  case (1 d now w)
  then show ?case by simp
next
  case (2 d now w filePath s rest)
  from "2.prems"(3) obtain d1 where
    u: "upsertConflictBlocker d now w filePath (classifySeverity s) (buildDescription filePath s) = Inr d1"
    and r: "upsert_all d1 now w rest = Inr d'"
    by (auto split: sum.splits)
  from upsertConflictBlocker_ids [OF "2.prems"(1) u] have i1: "distinct (map b_id (blockers d1))" .
  from "2.prems"(2) have dr: "distinct (map fst rest)" and nr: "filePath \<notin> set (map fst rest)"
    by auto
  show ?case
  proof (cases "e = (filePath, s)")
    case True
    from upsertConflictBlocker_settles [OF u] have "settled (blockers d1) w (filePath, s)" .
    with upsert_all_keeps_settled [OF i1 r, of "(filePath, s)"] nr True show ?thesis
      by simp
  next
    case False
    with "2.prems"(4) have "e \<in> set rest" by simp
    with "2.IH" [OF u i1 dr r] show ?thesis by simp
  qed
qed

lemma upsert_all_noop:
  "(\<And>e. e \<in> set cm \<Longrightarrow> settled (blockers d) w e) \<Longrightarrow> upsert_all d now w cm = Inr d"
proof (induction cm)
  case Nil
  then show ?case by simp
next
  case (Cons e cm)
  obtain p s where e: "e = (p, s)" by (cases e) auto
  from Cons.prems [of e] e have "settled (blockers d) w (p, s)" by simp
  from upsertConflictBlocker_settled_noop [OF this]
  have "upsertConflictBlocker d now w p (classifySeverity s) (buildDescription p s) = Inr d" .
  moreover from Cons have "upsert_all d now w cm = Inr d" by simp
  ultimately show ?case by (simp add: e)
qed

lemma resolveStaleBlockers_keeps_settled:
  assumes "fst e \<in> set (still_conflicting_branches d now w wh) \<union> set (still_conflicting_prs d w)"
    and "settled (blockers d) w e"
  shows "settled (blockers (resolveStaleBlockers d now w wh)) w e"
proof -
  let ?g = "\<lambda>b. if b_workspace_id b = w \<and> b_type b = FILE_CONFLICT_RISK \<and> \<not> b_resolved b
                   \<and> b_reference_id b \<notin> set (still_conflicting_branches d now w wh)
                       \<union> set (still_conflicting_prs d w)
                 then b\<lparr>b_resolved := True\<rparr> else b"
  have "find (active_key w FILE_CONFLICT_RISK (fst e)) (map ?g (blockers d))
      = find (active_key w FILE_CONFLICT_RISK (fst e)) (blockers d)"
    using assms(1) by (intro find_map_stable) (auto simp: active_key_def)
  with assms(2) show ?thesis
    by (simp add: settled_def resolveStaleBlockers_def)
qed

lemma resolveStaleBlockers_same_tables:
  assumes "file_activity d' = file_activity d" and "pull_requests d' = pull_requests d"
    and "pr_files d' = pr_files d"
  shows "resolveStaleBlockers d' now w wh =
     d'\<lparr>blockers :=
        map (\<lambda>b. if b_workspace_id b = w \<and> b_type b = FILE_CONFLICT_RISK \<and> \<not> b_resolved b
                   \<and> b_reference_id b \<notin> set (still_conflicting_branches d now w wh)
                       \<union> set (still_conflicting_prs d w)
                 then b\<lparr>b_resolved := True\<rparr> else b)
          (blockers d')\<rparr>"
  using assms
  by (simp add: resolveStaleBlockers_def still_conflicting_branches_def
        still_conflicting_prs_def open_pr_join_def)

lemma resolveStaleBlockers_idem:
  "resolveStaleBlockers (resolveStaleBlockers d now w wh) now w wh = resolveStaleBlockers d now w wh"
proof -
  let ?g = "\<lambda>b. if b_workspace_id b = w \<and> b_type b = FILE_CONFLICT_RISK \<and> \<not> b_resolved b
                   \<and> b_reference_id b \<notin> set (still_conflicting_branches d now w wh)
                       \<union> set (still_conflicting_prs d w)
                 then b\<lparr>b_resolved := True\<rparr> else b"
  let ?d1 = "resolveStaleBlockers d now w wh"
  have t: "file_activity ?d1 = file_activity d" "pull_requests ?d1 = pull_requests d"
    "pr_files ?d1 = pr_files d"
    by (simp_all add: resolveStaleBlockers_def)
  have b1: "blockers ?d1 = map ?g (blockers d)"
    by (simp add: resolveStaleBlockers_def)
  have gg: "?g (?g b) = ?g b" for b
    by simp
  have "map ?g (blockers ?d1) = blockers ?d1"
    unfolding b1 map_map comp_def gg ..
  with resolveStaleBlockers_same_tables [OF t, of now w wh] show ?thesis
    by simp
qed



lemma fields_blockers_update:
  "file_activity (d\<lparr>blockers := bs\<rparr>) = file_activity d"
  "pull_requests (d\<lparr>blockers := bs\<rparr>) = pull_requests d"
  "pr_files (d\<lparr>blockers := bs\<rparr>) = pr_files d"
  by simp_all

lemma queries_blockers_update [simp]:
  "conflictMap (d\<lparr>blockers := bs\<rparr>) now w wh = conflictMap d now w wh"
  "still_conflicting_branches (d\<lparr>blockers := bs\<rparr>) now w wh = still_conflicting_branches d now w wh"
  "still_conflicting_prs (d\<lparr>blockers := bs\<rparr>) w = still_conflicting_prs d w"
  by (simp_all only: conflictMap_def branch_overlap_query_def pr_overlap_query_def
        open_pr_join_def still_conflicting_branches_def still_conflicting_prs_def
        fields_blockers_update)

lemma frame_trans:
  assumes "b = a\<lparr>blockers := blockers b\<rparr>" and "c = b\<lparr>blockers := blockers c\<rparr>"
  shows "c = a\<lparr>blockers := blockers c\<rparr>"
proof -
  from assms(1) have "b\<lparr>blockers := blockers c\<rparr> = a\<lparr>blockers := blockers c\<rparr>"
    by (cases a, cases b) simp
  with assms(2) show ?thesis by simp
qed


lemma same_window_rows:
  assumes "same_window d w wh now now'"
  shows "filter (\<lambda>fa. fa_workspace_id fa = w \<and> fa_branch_name fa \<notin> set trunk_branches
                    \<and> fa_updated_at fa > now' - hours_interval wh) (file_activity d)
       = filter (\<lambda>fa. fa_workspace_id fa = w \<and> fa_branch_name fa \<notin> set trunk_branches
                    \<and> fa_updated_at fa > now - hours_interval wh) (file_activity d)"
  using assms by (intro filter_cong) (auto simp: same_window_def list_all_iff)

lemma same_window_queries:
  assumes "same_window d w wh now now'"
  shows "conflictMap d now' w wh = conflictMap d now w wh"
    and "still_conflicting_branches d now' w wh = still_conflicting_branches d now w wh"
  unfolding conflictMap_def branch_overlap_query_def still_conflicting_branches_def
    same_window_rows [OF assms] by (rule refl)+

lemma upsertConflictBlocker_no_workspace:
  "w \<notin> set (map ws_id (workspaces d))
     \<Longrightarrow> upsertConflictBlocker d now' w p sev descr = upsertConflictBlocker d now w p sev descr"
  by (simp add: upsertConflictBlocker_def insert_blocker_def split: option.splits)

lemma upsert_all_no_workspace:
  "w \<notin> set (map ws_id (workspaces d)) \<Longrightarrow> upsert_all d now' w cm = upsert_all d now w cm"
proof (induction d now w cm rule: upsert_all.induct)
  case (1 d now w)
  then show ?case by simp
next
  case (2 d now w filePath s rest)
  let ?u = "upsertConflictBlocker d now w filePath (classifySeverity s) (buildDescription filePath s)"
  have same: "upsertConflictBlocker d now' w filePath (classifySeverity s)
      (buildDescription filePath s) = ?u"
    using "2.prems" by (rule upsertConflictBlocker_no_workspace)
  show ?case
  proof (cases ?u)
    case (Inl e)
    with same show ?thesis by simp
  next
    case (Inr d1)
    from upsertConflictBlocker_frame [OF Inr] have "workspaces d1 = workspaces d"
      by (cases d, cases d1) simp
    with "2.prems" have "w \<notin> set (map ws_id (workspaces d1))" by simp
    from "2.IH" [OF Inr this] Inr same show ?thesis by simp
  qed
qed

lemma upsertConflictBlocker_with_workspace:
  "w \<in> set (map ws_id (workspaces d)) \<Longrightarrow> \<exists>d'. upsertConflictBlocker d now w p sev descr = Inr d'"
  by (auto simp: upsertConflictBlocker_def insert_blocker_def list_ex_iff find_None_iff
        split: option.splits)

lemma upsert_all_with_workspace:
  "w \<in> set (map ws_id (workspaces d)) \<Longrightarrow> \<exists>d'. upsert_all d now w cm = Inr d'"
proof (induction d now w cm rule: upsert_all.induct)
  case (1 d now w)
  then show ?case by simp
next
  case (2 d now w filePath s rest)
  from upsertConflictBlocker_with_workspace [OF "2.prems"] obtain d1 where
    u: "upsertConflictBlocker d now w filePath (classifySeverity s) (buildDescription filePath s) = Inr d1"
    by blast
  from upsertConflictBlocker_frame [OF u] have "workspaces d1 = workspaces d"
    by (cases d, cases d1) simp
  with "2.prems" have "w \<in> set (map ws_id (workspaces d1))" by simp
  from "2.IH" [OF u this] u show ?case by simp
qed

lemma runConflictEngine_rerun_committed:
  assumes ids: "distinct (map b_id (blockers d))"
    and win: "same_window d w (window_hours_of d w) now now'"
    and run: "runConflictEngine d now w files br = (Committed, d1, evs)"
  shows "runConflictEngine d1 now' w files br = (Committed, d1, evs)"
proof -
  let ?wh = "window_hours_of d w"
  let ?cm = "conflictMap d now w ?wh"
  from run obtain u1 where u: "upsert_all d now w ?cm = Inr u1"
    and d1: "d1 = resolveStaleBlockers u1 now w ?wh"
    and evs: "evs = map (\<lambda>(filePath, s).
                 (w, CONFLICT_WARNING filePath (branches s) (classifySeverity s))) ?cm"
    and files: "files \<noteq> []"
    by (rule runConflictEngine_committed)
  from upsert_all_frame [OF u] have f1: "u1 = d\<lparr>blockers := blockers u1\<rparr>" .
  have f2: "d1 = u1\<lparr>blockers := blockers d1\<rparr>"
    unfolding d1 by (rule resolveStaleBlockers_frame)
  from f1 f2 have f3: "d1 = d\<lparr>blockers := blockers d1\<rparr>"
    by (rule frame_trans)
  have wh1: "window_hours_of d1 w = ?wh"
    by (subst f3) simp
  have cm1: "conflictMap d1 now' w ?wh = ?cm"
    by (subst f3) (simp add: same_window_queries(1) [OF win])
  have sb: "still_conflicting_branches u1 now w ?wh = still_conflicting_branches d now w ?wh"
    and sp: "still_conflicting_prs u1 w = still_conflicting_prs d w"
    by (subst f1, simp)+
  have sb1: "still_conflicting_branches d1 now' w ?wh = still_conflicting_branches d now w ?wh"
    by (subst f3) (simp add: same_window_queries(2) [OF win])
  have sp1: "still_conflicting_prs d1 w = still_conflicting_prs d w"
    by (subst f3) simp
  from sb sp conflictMap_keys(2) [of d now w ?wh] have keys_u1: "set (map fst ?cm)
      = set (still_conflicting_branches u1 now w ?wh) \<union> set (still_conflicting_prs u1 w)"
    by simp
  have st1: "settled (blockers d1) w e" if e: "e \<in> set ?cm" for e
  proof -
    from upsert_all_settles [OF ids conflictMap_keys(1) u e]
    have "settled (blockers u1) w e" .
    moreover from e keys_u1
    have "fst e \<in> set (still_conflicting_branches u1 now w ?wh) \<union> set (still_conflicting_prs u1 w)"
      by force
    ultimately show ?thesis
      unfolding d1 by (intro resolveStaleBlockers_keeps_settled)
  qed
  then have noop: "upsert_all d1 now' w ?cm = Inr d1"
    by (rule upsert_all_noop)
  have "resolveStaleBlockers d1 now' w ?wh = resolveStaleBlockers d1 now w ?wh"
    unfolding resolveStaleBlockers_def sb1 sp1
    by (subst (3) f3) (simp only: queries_blockers_update)
  also have "\<dots> = d1"
    unfolding d1 by (rule resolveStaleBlockers_idem)
  finally have idem: "resolveStaleBlockers d1 now' w ?wh = d1" .
  from files noop idem evs show ?thesis
    by (simp add: runConflictEngine_def wh1 cm1 Let_def)
qed

text \<open>
  Claim C2, as amended.  Let the conflict engine run on a database whose blocker ids
  are pairwise distinct, and run it again on the result with the same arguments, at
  a clock that sees the same activity window.  The second run returns what the first
  returned: the same outcome, the database it was given, unchanged, and the same
  broadcasts.  A committed run broadcasts one \<open>CONFLICT_WARNING\<close> per entry of the
  conflict map, whether or not the upsert of that entry wrote anything; so the second
  run is silent only when the conflict map is empty.
\<close>

theorem runConflictEngine_second_run:
  assumes "distinct (map b_id (blockers d))"
    and "same_window d w (window_hours_of d w) now now'"
  shows "runConflictEngine (fst (snd (runConflictEngine d now w files br))) now' w files br
           = runConflictEngine d now w files br
       \<and> (fst (runConflictEngine d now w files br) = Committed \<longrightarrow>
            snd (snd (runConflictEngine d now w files br))
              = map (\<lambda>(filePath, s).
                       (w, CONFLICT_WARNING filePath (branches s) (classifySeverity s)))
                  (conflictMap d now w (window_hours_of d w)))"
proof -
  obtain out d1 evs where run: "runConflictEngine d now w files br = (out, d1, evs)"
    by (cases "runConflictEngine d now w files br") auto
  have a: "runConflictEngine d1 now' w files br = (out, d1, evs)"
  proof (cases out)
    case Skipped
    with run have "files = []" and "d1 = d" and "evs = []"
      by (auto simp: runConflictEngine_def Let_def split: if_splits sum.splits)
    with Skipped show ?thesis by (simp add: runConflictEngine_def)
  next
    case (RolledBack e)
    with run have f: "files \<noteq> []" and d: "d1 = d" and ev: "evs = []"
      and u: "upsert_all d now w (conflictMap d now w (window_hours_of d w)) = Inl e"
      by (auto simp: runConflictEngine_def Let_def split: if_splits sum.splits)
    from u upsert_all_with_workspace [of w d now "conflictMap d now w (window_hours_of d w)"]
    have "w \<notin> set (map ws_id (workspaces d))" by auto
    from upsert_all_no_workspace [OF this, of now' "conflictMap d now w (window_hours_of d w)" now] u
    have "upsert_all d now' w (conflictMap d now w (window_hours_of d w)) = Inl e" by simp
    with f d ev RolledBack show ?thesis
      by (simp add: runConflictEngine_def Let_def same_window_queries(1) [OF assms(2)])
  next
    case Committed
    with run assms show ?thesis
      by (auto intro: runConflictEngine_rerun_committed)
  qed
  have b: "evs = map (\<lambda>(filePath, s).
                       (w, CONFLICT_WARNING filePath (branches s) (classifySeverity s)))
                  (conflictMap d now w (window_hours_of d w))" if "out = Committed"
    using run that by (auto elim: runConflictEngine_committed)
  from a b run show ?thesis by simp
qed

text \<open>
  Claim C2, as stated, fails: on the example state the second run changes nothing in
  the database and still publishes both conflict warnings.
\<close>

theorem second_run_broadcasts_counterexample:
  "[''a.js''] \<noteq> []
   \<and> fst (runConflictEngine (fst (snd conflict_example_run)) 6000 ''w1'' [''a.js''] ''feat-2'')
       = Committed
   \<and> fst (snd (runConflictEngine (fst (snd conflict_example_run)) 6000 ''w1'' [''a.js''] ''feat-2''))
       = fst (snd conflict_example_run)
   \<and> snd (snd (runConflictEngine (fst (snd conflict_example_run)) 6000 ''w1'' [''a.js''] ''feat-2''))
       = [(''w1'', CONFLICT_WARNING ''a.js'' [''feat-1'', ''feat-2''] MEDIUM),
          (''w1'', CONFLICT_WARNING ''core.ts'' [] HIGH)]
   \<and> snd (snd (runConflictEngine (fst (snd conflict_example_run)) 6000 ''w1'' [''a.js''] ''feat-2''))
       \<noteq> []"
  by code_simp

theorem runConflictEngine_second_run_witness:
  "distinct (map b_id (blockers conflict_example_db))
   \<and> same_window conflict_example_db ''w1'' 72 5000 6000
   \<and> runConflictEngine (fst (snd conflict_example_run)) 6000 ''w1'' [''a.js''] ''feat-2''
       = conflict_example_run
   \<and> fst conflict_example_run = Committed
   \<and> map fst (conflictMap conflict_example_db 5000 ''w1'' 72) = [''a.js'', ''core.ts'']
   \<and> snd (snd conflict_example_run)
       = [(''w1'', CONFLICT_WARNING ''a.js'' [''feat-1'', ''feat-2''] MEDIUM),
          (''w1'', CONFLICT_WARNING ''core.ts'' [] HIGH)]"
proof -
  have ids: "distinct (map b_id (blockers conflict_example_db))"
    by code_simp
  have win: "same_window conflict_example_db ''w1'' (window_hours_of conflict_example_db ''w1'')
      5000 6000"
    by code_simp
  note t = runConflictEngine_second_run [OF ids win, of "[''a.js'']" "''feat-2''"]
  have e1: "fst conflict_example_run = Committed"
    by code_simp
  have e2: "map fst (conflictMap conflict_example_db 5000 ''w1'' 72) = [''a.js'', ''core.ts'']"
    by code_simp
  have e3: "window_hours_of conflict_example_db ''w1'' = 72"
    by code_simp
  have e4: "map (\<lambda>(filePath, s).
               (''w1'', CONFLICT_WARNING filePath (branches s) (classifySeverity s)))
             (conflictMap conflict_example_db 5000 ''w1'' 72)
       = [(''w1'', CONFLICT_WARNING ''a.js'' [''feat-1'', ''feat-2''] MEDIUM),
          (''w1'', CONFLICT_WARNING ''core.ts'' [] HIGH)]"
    by code_simp
  from t e1 e3 e4 have "snd (snd conflict_example_run)
       = [(''w1'', CONFLICT_WARNING ''a.js'' [''feat-1'', ''feat-2''] MEDIUM),
          (''w1'', CONFLICT_WARNING ''core.ts'' [] HIGH)]"
    by (simp add: conflict_example_run_def)
  with t ids win e1 e2 e3 show ?thesis
    by (simp add: conflict_example_run_def)
qed

end
